theory Spec2Isabelle
  imports Main "HOL-Library.Word"
begin

unbundle bit_operations_syntax

section \<open>Bytes, C strings and constants of tar.c\<close>

text \<open>
  A C \<open>char\<close> is modelled by the 8-bit type \<^typ>\<open>char\<close>; \<open>of_char\<close> reads it as the
  unsigned value 0..255.  A region of memory is a \<^typ>\<open>char list\<close>.  The numeric types
  \<open>int\<close> and \<open>long\<close> of the program are modelled by \<^typ>\<open>int\<close>.  The accumulator of
  \<open>getOctal\<close> is a \<open>long\<close> of 64 bits, and a field of more than 21 digits makes it wrap
  around: \<open>long\<close> below is the value a \<open>long\<close> holds after such an operation.  Every
  octal field of the header is 8 or 12 bytes wide, so a value decoded from a header is
  below \<open>8 ^ 12 = 2 ^ 36\<close> and the header checksum is below \<open>500 * 256\<close>; these stay
  inside a \<open>long\<close>, and the 8-byte fields inside a 32-bit \<open>int\<close>.
\<close>

definition long :: "int \<Rightarrow> int" where
  "long v = sint (word_of_int v :: 64 word)"

definition TAR_BLOCK_SIZE :: nat where
  "TAR_BLOCK_SIZE = 512"

definition TAR_NAME_SIZE :: nat where
  "TAR_NAME_SIZE = 100"

definition NUL :: char where
  "NUL = CHR 0x00"

definition TAR_TYPE_REGULAR :: char where
  "TAR_TYPE_REGULAR = CHR ''0''"

definition TAR_TYPE_HARD_LINK :: char where
  "TAR_TYPE_HARD_LINK = CHR ''1''"

definition TAR_TYPE_SOFT_LINK :: char where
  "TAR_TYPE_SOFT_LINK = CHR ''2''"

text \<open>The C string that starts at the beginning of a region: the bytes before the first
  null byte (\<open>strlen\<close> is its length).\<close>

definition cstring :: "char list \<Rightarrow> string" where
  "cstring mem = takeWhile (\<lambda>c. c \<noteq> NUL) mem"

text \<open>The macro \<open>isOctal(ch)\<close> of internal.h: \<open>'0' <= ch && ch <= '7'\<close>.\<close>

definition isOctal :: "char \<Rightarrow> bool" where
  "isOctal ch \<longleftrightarrow> (48::int) \<le> of_char ch \<and> (of_char ch :: int) \<le> 55"

section \<open>Octal fields: getOctal and putOctal\<close>

text \<open>
  \<open>getOctal (cp, len)\<close> only reads \<open>cp[0..len)\<close>; the model takes exactly these \<open>len\<close>
  bytes as a list.  The three loops of the source are \<open>skipSpaces\<close> (used twice) and
  \<open>octalDigits\<close>; each returns the rest of the field, which stands for the advanced
  pointer together with the remaining length.  The assignment to \<open>long val\<close> wraps.
\<close>

fun skipSpaces :: "char list \<Rightarrow> char list" where
  "skipSpaces [] = []"
| "skipSpaces (c # cp) = (if c = CHR '' '' then skipSpaces cp else c # cp)"

fun octalDigits :: "int \<Rightarrow> char list \<Rightarrow> int \<times> char list" where
  "octalDigits val [] = (val, [])"
| "octalDigits val (c # cp) =
     (if isOctal c then octalDigits (long (val * 8 + of_char c - 48)) cp else (val, c # cp))"

definition getOctal :: "char list \<Rightarrow> int" where
  "getOctal field =
     (let cp = skipSpaces field in
      if cp = [] \<or> \<not> isOctal (hd cp) then - 1
      else
        let (val, cp1) = octalDigits 0 cp;
            cp2 = skipSpaces cp1
        in if cp2 \<noteq> [] \<and> hd cp2 \<noteq> NUL then - 1 else val)"

text \<open>
  \<open>sprintf (tempString, " %0*lo", len - 2, value)\<close>: \<open>%lo\<close> prints its argument as an
  \<open>unsigned long\<close> in octal, so a negative \<open>long\<close> is printed as \<open>value + 2 ^ 64\<close>.
  With a non-negative width the digits are padded with zeroes on the left; a negative width
  (only for \<open>len < 2\<close>) means left justification, padded with spaces on the right.
\<close>

definition ulong :: "int \<Rightarrow> int" where
  "ulong v = v mod 2 ^ 64"

function octalString :: "int \<Rightarrow> string" where
  "octalString n =
     (if n < 8 then [char_of (48 + n)]
      else octalString (n div 8) @ [char_of (48 + n mod 8)])"
  by pat_completeness auto
termination
  by (relation "measure nat") auto

declare octalString.simps [simp del]

definition formatOctal :: "int \<Rightarrow> int \<Rightarrow> string" where
  "formatOctal width n =
     (let digits = octalString n in
      if 0 \<le> width then replicate (nat width - length digits) (CHR ''0'') @ digits
      else digits @ replicate (nat (- width) - length digits) (CHR '' ''))"

text \<open>
  \<open>putOctal (cp, len, value)\<close> returns \<open>FALSE\<close> and leaves the field alone (\<open>None\<close>), or
  copies \<open>len\<close> bytes of the formatted string, its terminating null included when it
  fits, into the field and returns \<open>TRUE\<close> (\<open>Some\<close> of the new field).  The formatted
  string lives in \<open>tempBuffer[32]\<close>, large enough for every \<open>len \<le> 32\<close>.
\<close>

definition putOctal :: "nat \<Rightarrow> int \<Rightarrow> char list option" where
  "putOctal len val =
     (let tempString = CHR '' '' # formatOctal (int len - 2) (ulong val);
          tempLength = length tempString + 1;
          drop1 = (tempLength > len);
          tempString1 = (if drop1 then tl tempString else tempString);
          tempLength1 = (if drop1 then tempLength - 1 else tempLength);
          tempLength2 = (if tempLength1 > len then tempLength1 - 1 else tempLength1)
      in if tempLength2 > len then None
         else Some (take len (tempString1 @ [NUL])))"

text \<open>
  The decoder in the words of the specification (\<open>parseOctal\<close>): leading spaces, at
  least one octal digit, trailing spaces, and then either the end of the field or a null
  byte.  Its value is the number the digits denote, without a bound.  It is compared with
  \<open>getOctal\<close> below.
\<close>

definition octalValue :: "char list \<Rightarrow> int" where
  "octalValue digits = foldl (\<lambda>val c. val * 8 + of_char c - 48) 0 digits"

definition parseOctal :: "char list \<Rightarrow> int option" where
  "parseOctal field =
     (let rest = dropWhile (\<lambda>c. c = CHR '' '') field;
          digits = takeWhile isOctal rest;
          trail = dropWhile (\<lambda>c. c = CHR '' '') (dropWhile isOctal rest)
      in if digits = [] then None
         else if trail = [] \<or> hd trail = NUL then Some (octalValue digits)
         else None)"

section \<open>The selection filter: wantFileName\<close>

text \<open>\<open>fileTable\<close> is the list of the \<open>fileCount\<close> path prefixes.  The loop body reads
  \<open>fileName[pathLength]\<close> only when \<open>fileLength > pathLength\<close>.\<close>

fun wantFileName_loop :: "string \<Rightarrow> string list \<Rightarrow> bool" where
  "wantFileName_loop fileName [] = False"
| "wantFileName_loop fileName (pathName # fileTable) =
     (let fileLength = length fileName; pathLength = length pathName in
      if fileLength < pathLength then wantFileName_loop fileName fileTable
      else if take pathLength fileName \<noteq> pathName then wantFileName_loop fileName fileTable
      else if fileLength = pathLength \<or> fileName ! pathLength = CHR ''/'' then True
      else wantFileName_loop fileName fileTable)"

definition wantFileName :: "string \<Rightarrow> string list \<Rightarrow> bool" where
  "wantFileName fileName fileTable =
     (if length fileTable = 0 then True else wantFileName_loop fileName fileTable)"


section \<open>The static data of tar.c and the outside world\<close>

text \<open>
  Calls into the operating system and into the helpers of utility.c that create or change
  files.  The reader consults a \<open>kernel\<close> for the value each call returns and records
  the calls it makes in the trace.  Among the events of the trace, \<open>Stderr\<close> and
  \<open>Stdout\<close> carry the text printed, and \<open>Perror p\<close> is the line that \<open>perror (p)\<close>
  prints on the standard error: \<open>p\<close>, a colon and a space, \<open>strerror (errno)\<close> and a
  newline.
\<close>

datatype syscall =
    Link string string
  | Symlink string string
  | Lchown string int int
  | Utime string int
  | Chown string int int
  | Chmod string int
  | Umask int
  | CreatePath string int
  | Mknod string int int int
  | Mkfifo string int
  | Open string int
  | Close int
  | FullWrite int "char list"

type_synonym kernel = "syscall \<Rightarrow> int"

datatype event =
    Stderr string
  | Perror string
  | Stdout string
  | ListVerboseDev int int int int int int
  | ListVerboseSize int int int int int
  | Sys syscall

text \<open>
  The record holds the static variables of tar.c under their own names, and four fields
  for what the program touches outside itself: \<open>buf\<close> is the array \<open>buf\<close> of
  \<open>readTarFile\<close> (the global pointer \<open>outName\<close> points into it, so \<open>outName\<close> is
  an offset into \<open>buf\<close>); \<open>tarOut\<close> is what has been written to \<open>tarFd\<close>;
  \<open>writeResults\<close> are the values the coming calls of \<open>fullWrite (tarFd, ...)\<close> return
  (after the last of them every call writes all its bytes); \<open>trace\<close> lists the
  messages printed and the system calls made.
\<close>

record tar_state =
  listFlag :: bool
  extractFlag :: bool
  createFlag :: bool
  verboseFlag :: bool
  tostdoutFlag :: bool
  inHeader :: bool
  badHeader :: bool
  errorFlag :: bool
  skipFileFlag :: bool
  warnedRoot :: bool
  eofFlag :: bool
  dataCc :: int
  outFd :: int
  outName :: nat
  mode :: int
  uid :: int
  gid :: int
  mtime :: int
  tarName :: "string option"
  tarFd :: int
  tarDev :: int
  tarInode :: int
  buf :: "char list"
  tarOut :: "char list"
  writeResults :: "int list"
  trace :: "event list"

definition say :: "event list \<Rightarrow> tar_state \<Rightarrow> tar_state" where
  "say es s = s\<lparr>trace := trace s @ es\<rparr>"

definition tarNameString :: "tar_state \<Rightarrow> string" where
  "tarNameString s = (case tarName s of None \<Rightarrow> [] | Some n \<Rightarrow> n)"

text \<open>The file type macros of \<open><sys/stat.h>\<close>.\<close>

definition S_IFMT :: int where "S_IFMT = 61440"
definition S_IFSOCK :: int where "S_IFSOCK = 49152"
definition S_IFREG :: int where "S_IFREG = 32768"
definition S_IFBLK :: int where "S_IFBLK = 24576"
definition S_IFDIR :: int where "S_IFDIR = 16384"
definition S_IFCHR :: int where "S_IFCHR = 8192"
definition S_IFIFO :: int where "S_IFIFO = 4096"

definition S_ISDIR :: "int \<Rightarrow> bool" where "S_ISDIR m \<longleftrightarrow> m AND S_IFMT = S_IFDIR"
definition S_ISREG :: "int \<Rightarrow> bool" where "S_ISREG m \<longleftrightarrow> m AND S_IFMT = S_IFREG"
definition S_ISCHR :: "int \<Rightarrow> bool" where "S_ISCHR m \<longleftrightarrow> m AND S_IFMT = S_IFCHR"
definition S_ISBLK :: "int \<Rightarrow> bool" where "S_ISBLK m \<longleftrightarrow> m AND S_IFMT = S_IFBLK"
definition S_ISFIFO :: "int \<Rightarrow> bool" where "S_ISFIFO m \<longleftrightarrow> m AND S_IFMT = S_IFIFO"
definition S_ISSOCK :: "int \<Rightarrow> bool" where "S_ISSOCK m \<longleftrightarrow> m AND S_IFMT = S_IFSOCK"

text \<open>
  A file open for reading: the bytes it still holds and, when the descriptor is going to
  fail, the number of calls of \<open>fullRead\<close> that succeed before the failing one.

  Modelled from the spec: \<open>fullRead\<close> (utility.c) is not part of the sources at hand.
  The Block I/O component "guarantees full reads ... against short-read ... conditions":
  a call returns the requested number of bytes unless the file ends first, and \<open>- 1\<close>
  on an error.
\<close>

record infile =
  content :: "char list"
  goodReads :: "nat option"

definition fullRead :: "infile \<Rightarrow> nat \<Rightarrow> int \<times> char list \<times> infile" where
  "fullRead f len =
     (if goodReads f = Some 0 then (- 1, [], f)
      else (int (length (take len (content f))), take len (content f),
            f\<lparr>content := drop len (content f),
              goodReads := map_option (\<lambda>n. n - 1) (goodReads f)\<rparr>))"

text \<open>
  Modelled from the spec: \<open>fullWrite\<close> (utility.c) is not part of the sources at hand
  either.  On the archive descriptor it returns the next of \<open>writeResults\<close> and the
  archive receives that many of the bytes; with no result pending it writes all of them
  and returns their number.
\<close>

definition fullWrite :: "tar_state \<Rightarrow> char list \<Rightarrow> int \<times> tar_state" where
  "fullWrite s bytes =
     (case writeResults s of
        [] \<Rightarrow> (int (length bytes), s\<lparr>tarOut := tarOut s @ bytes\<rparr>)
      | r # rs \<Rightarrow> (r, s\<lparr>tarOut := tarOut s @ take (nat r) bytes, writeResults := rs\<rparr>))"

section \<open>The header layout\<close>

text \<open>
  \<open>TarHeader\<close> consists of \<open>char\<close> arrays only, so it has no padding: a member is the
  pair of its offset and its size, and \<open>sizeof (TarHeader)\<close> is 500.  In the archive a
  header occupies a block of 512 bytes.
\<close>

type_synonym member = "nat \<times> nat"

definition h_name :: member where "h_name = (0, 100)"
definition h_mode :: member where "h_mode = (100, 8)"
definition h_uid :: member where "h_uid = (108, 8)"
definition h_gid :: member where "h_gid = (116, 8)"
definition h_size :: member where "h_size = (124, 12)"
definition h_mtime :: member where "h_mtime = (136, 12)"
definition h_checkSum :: member where "h_checkSum = (148, 8)"
definition h_typeFlag :: member where "h_typeFlag = (156, 1)"
definition h_linkName :: member where "h_linkName = (157, 100)"
definition h_magic :: member where "h_magic = (257, 6)"
definition h_version :: member where "h_version = (263, 2)"
definition h_uname :: member where "h_uname = (265, 32)"
definition h_gname :: member where "h_gname = (297, 32)"
definition h_devMajor :: member where "h_devMajor = (329, 8)"
definition h_devMinor :: member where "h_devMinor = (337, 8)"
definition h_prefix :: member where "h_prefix = (345, 155)"

definition sizeof_TarHeader :: nat where
  "sizeof_TarHeader = 500"

definition bytesOf :: "member \<Rightarrow> char list \<Rightarrow> char list" where
  "bytesOf m mem = take (snd m) (drop (fst m) mem)"

text \<open>\<open>store off bytes mem\<close> is \<open>memcpy (mem + off, bytes, length bytes)\<close>.\<close>

definition store :: "nat \<Rightarrow> char list \<Rightarrow> char list \<Rightarrow> char list" where
  "store off bytes mem = take off mem @ bytes @ drop (off + length bytes) mem"

definition strncpy :: "string \<Rightarrow> nat \<Rightarrow> char list" where
  "strncpy src n = take n (src @ replicate n NUL)"

text \<open>\<open>putOctal (header.m, sizeof (header.m), val)\<close>, its result ignored as in
  \<open>writeHeader\<close>: on failure the member keeps its bytes.\<close>

definition putOctalMember :: "member \<Rightarrow> int \<Rightarrow> char list \<Rightarrow> char list" where
  "putOctalMember m val mem =
     (case putOctal (snd m) val of None \<Rightarrow> mem | Some bytes \<Rightarrow> store (fst m) bytes mem)"

section \<open>The writer\<close>

record stat =
  st_dev :: int
  st_ino :: int
  st_mode :: int
  st_uid :: int
  st_gid :: int
  st_size :: int
  st_mtime :: int


definition writeTarBlock :: "tar_state \<Rightarrow> char list \<Rightarrow> tar_state" where
  "writeTarBlock s bytes =
     (if errorFlag s then s
      else
        let len = length bytes;
            partialLength = len mod TAR_BLOCK_SIZE;
            completeLength = len - partialLength;
            (w, s1) = (if completeLength > 0 then fullWrite s (take completeLength bytes)
                       else (1, s))
        in if completeLength > 0 \<and> w = 0
           then say [Perror (tarNameString s1)] s1\<lparr>errorFlag := True\<rparr>
           else if partialLength = 0 then s1
           else
             let fullBlock = drop completeLength bytes
                               @ replicate (TAR_BLOCK_SIZE - partialLength) NUL;
                 (w2, s2) = fullWrite s1 fullBlock
             in if w2 = 0 then say [Perror (tarNameString s2)] s2\<lparr>errorFlag := True\<rparr>
                else s2)"

text \<open>The loop \<open>while (len-- > 0) checkSum += *cp++\<close> over \<open>unsigned char\<close>.\<close>

definition byteSum :: "char list \<Rightarrow> int" where
  "byteSum mem = foldl (\<lambda>checkSum c. checkSum + of_char c) 0 mem"

text \<open>
  The header that \<open>writeHeader\<close> builds in its local \<open>header\<close>.  \<open>strcpy\<close> writes
  the name and its terminating null from offset 0; a name of 100 bytes (a directory of 99
  bytes and its slash) puts the null on \<open>mode[0]\<close>, which \<open>putOctal\<close> overwrites.
\<close>

definition buildHeader :: "string \<Rightarrow> stat \<Rightarrow> char list" where
  "buildHeader fileName statbuf =
     (let header = replicate sizeof_TarHeader NUL;
          header = store (fst h_name) (fileName @ [NUL]) header;
          header = store (fst h_magic) (strncpy ''ustar'' (snd h_magic)) header;
          header = store (fst h_version) (strncpy ''00'' (snd h_version)) header;
          header = putOctalMember h_mode (st_mode statbuf AND 511) header;
          header = putOctalMember h_uid (st_uid statbuf) header;
          header = putOctalMember h_gid (st_gid statbuf) header;
          header = putOctalMember h_size (st_size statbuf) header;
          header = putOctalMember h_mtime (st_mtime statbuf) header;
          header = store (fst h_typeFlag) [TAR_TYPE_REGULAR] header;
          header = store (fst h_checkSum) (replicate (snd h_checkSum) (CHR '' '')) header;
          checkSum = byteSum (take sizeof_TarHeader header)
      in putOctalMember h_checkSum checkSum header)"

definition writeHeader :: "tar_state \<Rightarrow> string \<Rightarrow> stat \<Rightarrow> tar_state" where
  "writeHeader s fileName statbuf =
     writeTarBlock s (take sizeof_TarHeader (buildHeader fileName statbuf))"








section \<open>The reader\<close>

text \<open>
  \<open>readHeader (hp, fileCount, fileTable)\<close>: \<open>hp\<close> is an offset into \<open>buf\<close>, and
  \<open>mem\<close> below is the memory from \<open>hp\<close> to the end of \<open>buf\<close>.  The strings
  \<open>outName\<close> and \<open>hp->linkName\<close> end at the first null byte, wherever it is.  Each
  branch of the definitions below is one path through the function: the messages and calls
  of the path in their order, and the assignments of the path to the static variables.
\<close>

definition carriesData :: "int \<Rightarrow> bool" where
  "carriesData m \<longleftrightarrow> S_ISREG m \<or> S_ISCHR m \<or> S_ISBLK m \<or> S_ISSOCK m \<or> S_ISFIFO m"

text \<open>
  The name is not wanted (lines 497 to 507): \<open>size\<close>, \<open>hardLink\<close> and \<open>softLink\<close>
  are the locals of \<open>readHeader\<close>.
\<close>

definition readHeader_unwanted :: "bool \<Rightarrow> bool \<Rightarrow> int \<Rightarrow> tar_state \<Rightarrow> tar_state" where
  "readHeader_unwanted hardLink softLink size' s =
     (if \<not> hardLink \<and> \<not> softLink \<and> carriesData (mode s)
      then s\<lparr>inHeader := (size' = 0), dataCc := size', skipFileFlag := True\<rparr>
      else s\<lparr>skipFileFlag := True\<rparr>)"

text \<open>Listing only (lines 513 to 536).\<close>

definition readHeader_list ::
  "string \<Rightarrow> string \<Rightarrow> bool \<Rightarrow> bool \<Rightarrow> int \<Rightarrow> int \<Rightarrow> int \<Rightarrow> tar_state \<Rightarrow> tar_state" where
  "readHeader_list name linkName hardLink softLink size' major minor s =
     (let verbose =
            (if verboseFlag s
             then (if S_ISCHR (mode s) \<or> S_ISBLK (mode s)
                   then [ListVerboseDev (mode s) (uid s) (gid s) major minor (mtime s)]
                   else [ListVerboseSize (mode s) (uid s) (gid s) size' (mtime s)])
             else [])
      in if hardLink
         then say (verbose @ [Stdout name,
                              Stdout ('' (link to '' @ [CHR 0x22] @ linkName @ [CHR 0x22] @ '')''),
                              Stdout [CHR 0x0A]]) s
         else if softLink
         then say (verbose @ [Stdout name,
                              Stdout ('' (symlink to '' @ [CHR 0x22] @ linkName @ [CHR 0x22] @ '')''),
                              Stdout [CHR 0x0A]]) s
         else if carriesData (mode s)
         then say (verbose @ [Stdout name, Stdout [CHR 0x0A]])
                (s\<lparr>inHeader := (size' = 0), dataCc := size'\<rparr>)
         else say (verbose @ [Stdout name, Stdout [CHR 0x0A]]) s)"

text \<open>
  Extraction (lines 541 to 648).  \<open>utime\<close>, \<open>chown\<close> and \<open>chmod\<close> are
  \<open>restoreCalls\<close>; their results are ignored by the program.  For \<open>createPath\<close> the
  kernel answers 1 where the helper returns the value \<open>TRUE\<close> of internal.h.
\<close>

definition restoreCalls :: "string \<Rightarrow> tar_state \<Rightarrow> event list" where
  "restoreCalls name s =
     [Sys (Utime name (mtime s)), Sys (Chown name (uid s) (gid s)), Sys (Chmod name (mode s))]"

definition readHeader_extract ::
  "kernel \<Rightarrow> string \<Rightarrow> string \<Rightarrow> bool \<Rightarrow> bool \<Rightarrow> int \<Rightarrow> int \<Rightarrow> int \<Rightarrow> tar_state \<Rightarrow> tar_state" where
  "readHeader_extract k name linkName hardLink softLink size' major minor s =
     (let verbose = (if verboseFlag s then [Stdout (''x '' @ name @ [CHR 0x0A])] else []) in
      if hardLink then
        (if k (Link linkName name) < 0
         then say (verbose @ [Sys (Link linkName name), Perror name]) s
         else say (verbose @ [Sys (Link linkName name)] @ restoreCalls name s) s)
      else if softLink then
        (if k (Symlink linkName name) < 0
         then say (verbose @ [Sys (Symlink linkName name), Perror name]) s
         else say (verbose @ [Sys (Symlink linkName name), Sys (Lchown name (uid s) (gid s))]) s)
      else if S_ISDIR (mode s) \<and> k (CreatePath name (mode s)) = 1 then
        say (verbose @ [Sys (Umask 0), Sys (CreatePath name (mode s))] @ restoreCalls name s) s
      else
        let before = verbose @ [Sys (Umask 0)]
                       @ (if S_ISDIR (mode s) then [Sys (CreatePath name (mode s))] else [])
                       @ [Sys (CreatePath name 511)];
            devFileFlag = (S_ISCHR (mode s) \<or> S_ISBLK (mode s) \<or> S_ISSOCK (mode s)
                           \<or> S_ISFIFO (mode s));
            call = (if S_ISCHR (mode s) \<or> S_ISBLK (mode s) \<or> S_ISSOCK (mode s)
                    then Mknod name (mode s) major minor
                    else if S_ISFIFO (mode s) then Mkfifo name (mode s)
                    else Open name (mode s))
        in if tostdoutFlag s
           then say before (s\<lparr>inHeader := (size' = 0), dataCc := size', outFd := 1\<rparr>)
           else if k call < 0
           then say (before @ [Sys call, Perror name])
                  (s\<lparr>inHeader := (size' = 0), dataCc := size', outFd := k call,
                     skipFileFlag := True\<rparr>)
           else if size' = 0 \<and> \<not> devFileFlag
           then say (before @ [Sys call] @ restoreCalls name s @ [Sys (Close (k call))])
                  (s\<lparr>inHeader := (size' = 0), dataCc := size', outFd := - 1\<rparr>)
           else say (before @ [Sys call] @ restoreCalls name s)
                  (s\<lparr>inHeader := (size' = 0), dataCc := size', outFd := k call\<rparr>))"

text \<open>
  A header whose four checked fields are decoded (lines 458 to 507, then one of the two
  definitions above): \<open>mem\<close> is the memory at \<open>hp\<close> and \<open>name\<close> the string there,
  not empty.
\<close>

definition readHeader_entry ::
  "kernel \<Rightarrow> string list \<Rightarrow> nat \<Rightarrow> char list \<Rightarrow> int \<Rightarrow> int \<Rightarrow> int \<Rightarrow> tar_state \<Rightarrow> tar_state" where
  "readHeader_entry k fileTable hp mem size' major minor s =
     (let typeFlag = hd (bytesOf h_typeFlag mem);
          hardLink = (typeFlag = TAR_TYPE_HARD_LINK \<or> typeFlag = CHR 0x01);
          softLink = (typeFlag = TAR_TYPE_SOFT_LINK \<or> typeFlag = CHR 0x02);
          linkName = cstring (drop (fst h_linkName) mem);
          name = cstring mem;
          slashes = length (takeWhile (\<lambda>c. c = CHR ''/'') name);
          absolute = (hd name = CHR ''/'');
          s = say (if absolute \<and> \<not> warnedRoot s
                   then [Stderr (''Absolute path detected, removing leading slashes''
                                  @ [CHR 0x0A])]
                   else [])
                (s\<lparr>badHeader := False, skipFileFlag := False,
                   mode := (if last name = CHR ''/'' then mode s OR S_IFDIR else mode s),
                   outName := (if absolute then hp + slashes else hp),
                   warnedRoot := (if absolute then True else warnedRoot s)\<rparr>);
          name = (if absolute then drop slashes name else name)
      in if \<not> wantFileName name fileTable
         then readHeader_unwanted hardLink softLink size' s
         else if \<not> extractFlag s
         then readHeader_list name linkName hardLink softLink size' major minor s
         else readHeader_extract k name linkName hardLink softLink size' major minor s)"

text \<open>
  The scan of an empty name (lines 425 to 434) leaves \<open>outName\<close> behind the first byte
  of the block that is not null, or sets \<open>eofFlag\<close> after 512 null bytes.  \<open>major\<close> and
  \<open>minor\<close> are \<open>unsigned int\<close>.
\<close>

definition readHeader :: "kernel \<Rightarrow> string list \<Rightarrow> nat \<Rightarrow> tar_state \<Rightarrow> tar_state" where
  "readHeader k fileTable hp s =
     (let mem = drop hp (buf s) in
      if hd mem = NUL then
        (let nulls = length (takeWhile (\<lambda>c. c = NUL) (take TAR_BLOCK_SIZE mem)) in
         if nulls < TAR_BLOCK_SIZE then s\<lparr>outName := hp + nulls + 1\<rparr>
         else s\<lparr>outName := hp + TAR_BLOCK_SIZE, eofFlag := True\<rparr>)
      else
        let size' = getOctal (bytesOf h_size mem);
            checkSum = getOctal (bytesOf h_checkSum mem);
            major = getOctal (bytesOf h_devMajor mem) mod 2 ^ 32;
            minor = getOctal (bytesOf h_devMinor mem) mod 2 ^ 32;
            s = s\<lparr>outName := hp, mode := getOctal (bytesOf h_mode mem),
                   uid := getOctal (bytesOf h_uid mem), gid := getOctal (bytesOf h_gid mem),
                   mtime := getOctal (bytesOf h_mtime mem)\<rparr>
        in if mode s < 0 \<or> uid s < 0 \<or> gid s < 0 \<or> size' < 0
           then say (if \<not> badHeader s then [Stderr (''Bad tar header, skipping'' @ [CHR 0x0A])]
                     else [])
                  (s\<lparr>badHeader := True\<rparr>)
           else readHeader_entry k fileTable hp mem size' major minor s)"

text \<open>
  \<open>readData (cp, count)\<close>: \<open>cp\<close> is an offset into \<open>buf\<close>, and \<open>outName\<close> is read
  from \<open>buf\<close> as it is now.
\<close>

definition readData :: "kernel \<Rightarrow> nat \<Rightarrow> int \<Rightarrow> tar_state \<Rightarrow> tar_state" where
  "readData k cp count s =
     (let s = s\<lparr>dataCc := dataCc s - count,
                 inHeader := (if dataCc s - count \<le> 0 then True else inHeader s)\<rparr>;
          name = cstring (drop (outName s) (buf s));
          call = FullWrite (outFd s) (take (nat count) (drop cp (buf s)))
      in if \<not> extractFlag s \<or> skipFileFlag s then s
         else if k call < 0 then
           (if \<not> tostdoutFlag s
            then say [Sys call, Perror name, Sys (Close (outFd s))]
                   (s\<lparr>outFd := - 1, skipFileFlag := True\<rparr>)
            else say [Sys call, Perror name] (s\<lparr>skipFileFlag := True\<rparr>))
         else if dataCc s \<le> 0 \<and> \<not> tostdoutFlag s then
           say ([Sys call, Sys (Close (outFd s))]
                @ (if k (Close (outFd s)) \<noteq> 0 then [Perror name] else [])
                @ restoreCalls name s)
             (s\<lparr>outFd := - 1\<rparr>)
         else say [Sys call] s)"

text \<open>The operator \<open>%\<close> of C truncates towards zero.\<close>

definition c_rem :: "int \<Rightarrow> int \<Rightarrow> int" where
  "c_rem a b = (if a < 0 then - ((- a) mod b) else a mod b)"

text \<open>
  One round of the loop of \<open>readTarFile\<close> once \<open>buf\<close> holds data: the locals \<open>cp\<close>
  (an offset into \<open>buf\<close>) and \<open>inCc\<close>, and the state.
\<close>

definition readTarFile_block ::
  "kernel \<Rightarrow> string list \<Rightarrow> nat \<Rightarrow> int \<Rightarrow> tar_state \<Rightarrow> nat \<times> int \<times> tar_state" where
  "readTarFile_block k fileTable cp inCc s =
     (if inHeader s
      then (cp + TAR_BLOCK_SIZE, inCc - int TAR_BLOCK_SIZE, readHeader k fileTable cp s)
      else
        let cc = (if inCc > dataCc s then dataCc s else inCc);
            cc' = (if c_rem cc (int TAR_BLOCK_SIZE) \<noteq> 0
                   then cc + (int TAR_BLOCK_SIZE - c_rem cc (int TAR_BLOCK_SIZE)) else cc)
        in (nat (int cp + cc'), inCc - cc', readData k cp cc s))"

text \<open>
  The loop of \<open>readTarFile\<close>.  \<open>tarIn\<close> is the archive behind \<open>tarFd\<close>,
  \<open>blockSize\<close> is \<open>sizeof (buf)\<close> (the constant \<open>BUF_SIZE\<close> of internal.h), and
  \<open>fullRead\<close> stores what it reads at the start of \<open>buf\<close>.  The loop ends when
  \<open>eofFlag\<close> is set or at one of the two \<open>goto done\<close>.

  Outside a header the data count is positive (\<open>live\<close>): \<open>readHeader\<close> leaves the
  header state only with a size that is not zero, and it has rejected a negative one.  In
  such a state every round consumes input, which is the reason the loop ends.
\<close>

definition live :: "tar_state \<Rightarrow> bool" where
  "live s \<longleftrightarrow> inHeader s \<or> 0 < dataCc s"

function readTarFile_loop ::
  "kernel \<Rightarrow> string list \<Rightarrow> nat \<Rightarrow> infile \<Rightarrow> nat \<Rightarrow> int \<Rightarrow> tar_state \<Rightarrow> tar_state" where
  "readTarFile_loop k fileTable blockSize tarIn cp inCc s =
     (if eofFlag s then s
      else if inCc \<le> 0 then
        (case fullRead tarIn blockSize of
           (n, bytes, tarIn') \<Rightarrow>
             if n < 0 then say [Perror (tarNameString s)] (s\<lparr>errorFlag := True\<rparr>)
             else if n = 0
             then say [Stderr (''Unexpected end of file from '' @ [CHR 0x22] @ tarNameString s
                               @ [CHR 0x22])]
                    (s\<lparr>errorFlag := True\<rparr>)
             else
               (case readTarFile_block k fileTable 0 n (s\<lparr>buf := store 0 bytes (buf s)\<rparr>) of
                  (cp', inCc', s') \<Rightarrow> readTarFile_loop k fileTable blockSize tarIn' cp' inCc' s'))
      else
        (case readTarFile_block k fileTable cp inCc s of
           (cp', inCc', s') \<Rightarrow> readTarFile_loop k fileTable blockSize tarIn cp' inCc' s'))"
  by pat_completeness auto
termination
proof (relation "measures [\<lambda>(k, fileTable, blockSize, tarIn, cp, inCc, s). length (content tarIn),
                           \<lambda>(k, fileTable, blockSize, tarIn, cp, inCc, s). if live s then 0 else 1,
                           \<lambda>(k, fileTable, blockSize, tarIn, cp, inCc, s). nat inCc]",
       goal_cases)
  case 1
  show ?case by simp
next
  case 2
  then show ?case
    by (auto simp: fullRead_def split: if_splits)
next
  case (3 k fileTable blockSize tarIn cp inCc s cp' y inCc' s')
  have say: "live (say es t) = live t" for es t by (simp add: live_def say_def)
  have hdr: "live (readHeader k fileTable cp s)" if "inHeader s"
  proof -
    have u: "live (readHeader_unwanted h l z t)" if "0 \<le> z" "inHeader t" for h l z t
      using that by (auto simp: readHeader_unwanted_def live_def)
    have l: "live (readHeader_list n ln h l z ma mi t)" if "0 \<le> z" "inHeader t" for n ln h l z ma mi t
      using that by (auto simp: readHeader_list_def Let_def live_def say_def)
    have e: "live (readHeader_extract k n ln h l z ma mi t)" if "0 \<le> z" "inHeader t" for n ln h l z ma mi t
      using that by (auto simp: readHeader_extract_def Let_def live_def say_def)
    have sel: "inHeader (say es t) = inHeader t" for es t by (simp add: say_def)
    have en: "live (readHeader_entry k fileTable cp mem z ma mi t)" if "0 \<le> z" "inHeader t" for mem z ma mi t
      unfolding readHeader_entry_def Let_def using that by (simp add: u l e sel)
    show ?thesis
      unfolding readHeader_def Let_def using that
      by (simp add: en not_less say) (simp add: live_def)
  qed
  have dat: "live (readData k cp c s)" for c
    by (auto simp: readData_def Let_def live_def say_def)
  have blk: "readTarFile_block k fileTable cp inCc s = (cp', inCc', s')" using 3 by simp
  have pos: "0 < inCc" using 3 by simp
  have "(live s \<longrightarrow> live s' \<and> nat inCc' < nat inCc) \<and> (\<not> live s \<longrightarrow> live s')"
  proof (cases "inHeader s")
    case True
    then have "live s" "live s'" "inCc' = inCc - 512"
      using blk hdr by (auto simp: readTarFile_block_def live_def TAR_BLOCK_SIZE_def)
    then show ?thesis using pos by simp
  next
    case False
    have ls': "live s'" using blk False dat by (auto simp: readTarFile_block_def Let_def)
    show ?thesis
    proof (cases "live s")
      case True
      then have d: "0 < dataCc s" using False by (simp add: live_def)
      define cc where "cc = (if inCc > dataCc s then dataCc s else inCc)"
      have cc: "0 < cc" using d pos by (simp add: cc_def)
      have "inCc' < inCc"
        using blk False cc unfolding readTarFile_block_def Let_def cc_def[symmetric]
        by (auto simp: c_rem_def TAR_BLOCK_SIZE_def split: if_splits)
      then show ?thesis using True ls' pos by simp
    next
      case False
      then show ?thesis using ls' by simp
    qed
  qed
  then show ?case using blk by auto
qed


declare readTarFile_loop.simps [simp del]

text \<open>
  \<open>readTarFile\<close>: \<open>buf0\<close> is the array \<open>buf\<close> as it is found on the stack,
  \<open>opened\<close> is the descriptor that \<open>open (tarName, O_RDONLY)\<close> returns, and
  \<open>fileno (stdin)\<close> is 0.
\<close>

definition readTarFile ::
  "kernel \<Rightarrow> string list \<Rightarrow> char list \<Rightarrow> int \<Rightarrow> infile \<Rightarrow> tar_state \<Rightarrow> tar_state" where
  "readTarFile k fileTable buf0 opened tarIn s =
     (let s = s\<lparr>skipFileFlag := False, badHeader := False, warnedRoot := False,
                 eofFlag := False, inHeader := True, dataCc := 0, outFd := - 1, buf := buf0,
                 tarFd := (if tarName s = None \<or> tarName s = Some ''-'' then 0 else opened)\<rparr>
      in if tarFd s < 0 then say [Perror (tarNameString s)] (s\<lparr>errorFlag := True\<rparr>)
         else
           let s = readTarFile_loop k fileTable (length buf0) tarIn 0 0 s
           in say ([Sys (Close (tarFd s))]
                   @ (if k (Close (tarFd s)) < 0 then [Perror (tarNameString s)] else [])
                   @ (if \<not> tostdoutFlag s \<and> outFd s \<ge> 0 then [Sys (Close (outFd s))] else []))
                s)"

section \<open>Predicates and sample data of the statements\<close>


definition extends :: "tar_state \<Rightarrow> tar_state \<Rightarrow> bool" where
  "extends s s' \<longleftrightarrow> \<not> errorFlag s' \<and> writeResults s' = []
      \<and> (\<exists>a. tarOut s' = tarOut s @ a \<and> length a mod 512 = 0)"

text \<open>
  The static data as \<open>tar_main\<close> leaves them before it reads its options, a regular file
  of four bytes owned by user 1000, the archive file, a file whose first read fails, and
  a file system that knows \<open>hello.txt\<close> only (two bytes long by now).
\<close>

definition initialState :: tar_state where
  "initialState =
     \<lparr>listFlag = False, extractFlag = False, createFlag = False, verboseFlag = False,
      tostdoutFlag = False, inHeader = False, badHeader = False, errorFlag = False,
      skipFileFlag = False, warnedRoot = False, eofFlag = False, dataCc = 0, outFd = 0,
      outName = 0, mode = 0, uid = 0, gid = 0, mtime = 0, tarName = None, tarFd = - 1,
      tarDev = 0, tarInode = 0, buf = [], tarOut = [], writeResults = [], trace = []\<rparr>"

definition exampleStat :: stat where
  "exampleStat = \<lparr>st_dev = 2049, st_ino = 77, st_mode = 33188, st_uid = 1000, st_gid = 1000,
                   st_size = 4, st_mtime = 946684800\<rparr>"




text \<open>
  Reading a header at \<open>mem\<close>: one of the four fields that \<open>readHeader\<close> checks does not
  decode (\<open>headerFieldsBad\<close>); the static data after the fields are decoded (\<open>decoded\<close>);
  the name of the entry, without leading slashes (\<open>entryName\<close>); the two link types as the
  type flag gives them; the annotation of a link in a listing; and the warning.
\<close>

definition headerFieldsBad :: "char list \<Rightarrow> bool" where
  "headerFieldsBad mem \<longleftrightarrow>
     parseOctal (bytesOf h_mode mem) = None \<or> parseOctal (bytesOf h_uid mem) = None
     \<or> parseOctal (bytesOf h_gid mem) = None \<or> parseOctal (bytesOf h_size mem) = None"

definition decoded :: "nat \<Rightarrow> tar_state \<Rightarrow> tar_state" where
  "decoded hp s =
     s\<lparr>outName := hp, mode := getOctal (bytesOf h_mode (drop hp (buf s))),
       uid := getOctal (bytesOf h_uid (drop hp (buf s))),
       gid := getOctal (bytesOf h_gid (drop hp (buf s))),
       mtime := getOctal (bytesOf h_mtime (drop hp (buf s)))\<rparr>"

definition entryName :: "char list \<Rightarrow> string" where
  "entryName mem = dropWhile (\<lambda>c. c = CHR ''/'') (cstring mem)"

definition isHardLink :: "char list \<Rightarrow> bool" where
  "isHardLink mem \<longleftrightarrow> hd (bytesOf h_typeFlag mem) = CHR ''1'' \<or> hd (bytesOf h_typeFlag mem) = CHR 0x01"

definition isSoftLink :: "char list \<Rightarrow> bool" where
  "isSoftLink mem \<longleftrightarrow> hd (bytesOf h_typeFlag mem) = CHR ''2'' \<or> hd (bytesOf h_typeFlag mem) = CHR 0x02"

definition linkAnnotation :: "char list \<Rightarrow> event list" where
  "linkAnnotation mem =
     (if isHardLink mem
      then [Stdout ('' (link to '' @ [CHR 0x22] @ cstring (drop (fst h_linkName) mem)
                    @ [CHR 0x22] @ '')'')]
      else if isSoftLink mem
      then [Stdout ('' (symlink to '' @ [CHR 0x22] @ cstring (drop (fst h_linkName) mem)
                    @ [CHR 0x22] @ '')'')]
      else [])"

definition badHeaderWarning :: event where
  "badHeaderWarning = Stderr (''Bad tar header, skipping'' @ [CHR 0x0A])"

text \<open>
  The static data when \<open>readTarFile\<close> lists an archive and \<open>buf\<close> holds \<open>b\<close>; the header
  block that \<open>writeHeader\<close> emits for \<open>hello.txt\<close>; the first data block of that file; a
  block whose name is \<open>x\<close> and whose fields are empty; and a header named \<open>d/\<close> whose mode
  field holds the type bits of a regular file.
\<close>

definition listingState :: "char list \<Rightarrow> tar_state" where
  "listingState b = initialState\<lparr>listFlag := True, inHeader := True, outFd := - 1, buf := b\<rparr>"

definition exampleHeader :: "char list" where
  "exampleHeader =
     ''hello.txt'' @ replicate 91 NUL @ '' 000644'' @ [NUL] @ '' 001750'' @ [NUL]
     @ '' 001750'' @ [NUL] @ '' 0000000004'' @ [NUL] @ '' 7033241600'' @ [NUL]
     @ '' 007547'' @ [NUL] @ ''0'' @ replicate 100 NUL @ ''ustar'' @ [NUL] @ ''00''
     @ replicate 247 NUL"

definition exampleData :: "char list" where
  "exampleData = ''abcd'' @ replicate 508 NUL"

definition badBlock :: "char list" where
  "badBlock = ''x'' @ replicate 511 NUL"

definition slashHeader :: "char list" where
  "slashHeader =
     ''d/'' @ replicate 98 NUL @ '' 100644'' @ [NUL] @ '' 001750'' @ [NUL]
     @ '' 001750'' @ [NUL] @ '' 0000000000'' @ [NUL] @ '' 7033241600'' @ [NUL]
     @ replicate 8 (CHR '' '') @ ''0'' @ replicate 355 NUL"

text \<open>
  The reader lists an archive from descriptor 3, is about to read a header, holds \<open>B\<close> in
  \<open>buf\<close>, has printed \<open>tr\<close> so far, and its flag \<open>badHeader\<close> is \<open>b\<close>.
\<close>

definition listingAt :: "char list \<Rightarrow> bool \<Rightarrow> event list \<Rightarrow> tar_state \<Rightarrow> bool" where
  "listingAt B b tr t \<longleftrightarrow>
     buf t = B \<and> \<not> eofFlag t \<and> inHeader t \<and> \<not> extractFlag t \<and> \<not> verboseFlag t
     \<and> \<not> tostdoutFlag t \<and> outFd t = - 1 \<and> tarFd t = 3 \<and> tarName t = Some ''a.tar''
     \<and> badHeader t = b \<and> trace t = tr"

section \<open>Properties of the octal fields\<close>

lemma long_eq: "long v = signed_take_bit 63 v"
  by (simp add: long_def sint_sbintrunc')

lemma long_id: "- (2 ^ 63) \<le> v \<Longrightarrow> v < 2 ^ 63 \<Longrightarrow> long v = v"
  by (simp add: long_eq signed_take_bit_int_eq_self)

lemma mod_step: "(a mod m * 8 + d) mod m = (a * 8 + d) mod m" for a d m :: int
  by (metis mod_add_left_eq mod_mult_left_eq)

lemma long_step: "long (long v * 8 + d) = long (v * 8 + d)"
proof -
  have t: "signed_take_bit 63 v mod 2 ^ 64 = v mod 2 ^ 64"
    using take_bit_signed_take_bit[of 64 63 v] by (simp add: take_bit_eq_mod)
  have "(signed_take_bit 63 v * 8 + d) mod 2 ^ 64 = (v * 8 + d) mod 2 ^ 64"
    using mod_step[of "signed_take_bit 63 v" "2 ^ 64" d] mod_step[of v "2 ^ 64" d]
    unfolding t by simp
  then show ?thesis
    by (simp add: long_eq signed_take_bit_eq_iff_take_bit_eq take_bit_eq_mod)
qed

lemma octalDigits_step:
  "isOctal c \<Longrightarrow> octalDigits (long v) (c # cp) = octalDigits (long (v * 8 + of_char c - 48)) cp"
  using long_step[of v "of_char c - 48"] by (simp add: algebra_simps)

lemma octalString_nonempty: "octalString n \<noteq> []"
  by (subst octalString.simps) simp

lemma of_char_digit: "0 \<le> d \<Longrightarrow> d < 8 \<Longrightarrow> (of_char (char_of (48 + d :: int)) :: int) = 48 + d"
  by simp

lemma isOctal_digit: "0 \<le> d \<Longrightarrow> d < 8 \<Longrightarrow> isOctal (char_of (48 + d :: int))"
  by (simp add: isOctal_def)

lemma octalDigits_octalString:
  "0 \<le> n \<Longrightarrow> octalDigits (long v) (octalString n @ rest)
     = octalDigits (long (v * 8 ^ length (octalString n) + n)) rest"
proof (induction n arbitrary: v rest rule: octalString.induct)
  case (1 n)
  show ?case
  proof (cases "n < 8")
    case True
    have "octalDigits (long v) (octalString n @ rest)
        = octalDigits (long v) (char_of (48 + n) # rest)"
      using True by (subst octalString.simps) simp
    also have "\<dots> = octalDigits (long (v * 8 + n)) rest"
      using octalDigits_step[OF isOctal_digit[OF 1(2) True], of v rest] True 1(2)
      by (simp del: octalDigits.simps)
    also have "v * 8 + n = v * 8 ^ length (octalString n) + n"
      using True by (subst octalString.simps) simp
    finally show ?thesis .
  next
    case False
    have d: "0 \<le> n mod 8" "n mod 8 < 8" by simp_all
    have n8: "0 \<le> n div 8" using 1(2) by simp
    have "octalDigits (long v) (octalString n @ rest)
        = octalDigits (long v) (octalString (n div 8) @ (char_of (48 + n mod 8) # rest))"
      using False by (subst octalString.simps) simp
    also have "\<dots> = octalDigits (long (v * 8 ^ length (octalString (n div 8)) + n div 8))
                       (char_of (48 + n mod 8) # rest)"
      using 1(1)[OF False n8] by simp
    also have "\<dots> = octalDigits
        (long ((v * 8 ^ length (octalString (n div 8)) + n div 8) * 8 + n mod 8)) rest"
      using octalDigits_step[OF isOctal_digit[OF d],
          of "v * 8 ^ length (octalString (n div 8)) + n div 8" rest] d
      by (simp del: octalDigits.simps)
    also have "(v * 8 ^ length (octalString (n div 8)) + n div 8) * 8 + n mod 8
        = v * 8 ^ length (octalString n) + n"
      using False by (subst (2) octalString.simps) (simp add: algebra_simps)
    finally show ?thesis .
  qed
qed

lemma octalDigits_zeros:
  "octalDigits (long v) (replicate k (CHR ''0'') @ rest) = octalDigits (long (v * 8 ^ k)) rest"
proof (induction k arbitrary: v)
  case 0
  show ?case by simp
next
  case (Suc k)
  have z: "isOctal (CHR ''0'')" by (simp add: isOctal_def)
  have "octalDigits (long v) (replicate (Suc k) (CHR ''0'') @ rest)
      = octalDigits (long (v * 8)) (replicate k (CHR ''0'') @ rest)"
    using octalDigits_step[OF z, of v "replicate k (CHR ''0'') @ rest"]
    by (simp del: octalDigits.simps)
  also have "\<dots> = octalDigits (long (v * 8 * 8 ^ k)) rest" by (rule Suc.IH)
  finally show ?case by (simp add: algebra_simps)
qed

lemma length_octalString:
  "0 \<le> n \<Longrightarrow> 0 < k \<Longrightarrow> length (octalString n) \<le> k \<longleftrightarrow> n < 8 ^ k"
proof (induction n arbitrary: k rule: octalString.induct)
  case (1 n)
  show ?case
  proof (cases "n < 8")
    case True
    have "(8::int) ^ 1 \<le> 8 ^ k" using 1(3) by (intro power_increasing) simp_all
    with True show ?thesis using 1(3)
      by (subst octalString.simps) (simp)
  next
    case False
    have n8: "0 \<le> n div 8" using 1(2) by simp
    show ?thesis
    proof (cases "k = 1")
      case True
      with False show ?thesis
        using octalString_nonempty[of "n div 8"]
        by (subst octalString.simps) (simp add: Suc_le_eq)
    next
      case k: False
      then obtain j where j: "k = Suc j" "0 < j" using 1(3) by (cases k) auto
      have "length (octalString n) \<le> k \<longleftrightarrow> length (octalString (n div 8)) \<le> j"
        using False j by (subst octalString.simps) simp
      also have "\<dots> \<longleftrightarrow> n div 8 < 8 ^ j" using 1(1)[OF False n8 j(2)] .
      also have "\<dots> \<longleftrightarrow> n < 8 ^ k"
      proof -
        have "n div 8 < x \<longleftrightarrow> n < 8 * x" for x :: int by presburger
        then show ?thesis unfolding j(1) by simp
      qed
      finally show ?thesis .
    qed
  qed
qed


lemma skipSpaces_replicate: "skipSpaces (replicate a (CHR '' '') @ rest) = skipSpaces rest"
  by (induction a) simp_all

lemma hd_octalString: "0 \<le> n \<Longrightarrow> isOctal (hd (octalString n))"
proof (induction n rule: octalString.induct)
  case (1 n)
  show ?case
  proof (cases "n < 8")
    case True
    with 1(2) show ?thesis by (subst octalString.simps) (simp add: isOctal_digit)
  next
    case False
    have "0 \<le> n div 8" using 1(2) by simp
    from 1(1)[OF False this] False show ?thesis
      by (subst octalString.simps) (simp add: octalString_nonempty)
  qed
qed

lemma isOctal_not_space: "isOctal c \<Longrightarrow> c \<noteq> CHR '' ''"
  by (auto simp: isOctal_def)

lemma not_isOctal_NUL: "\<not> isOctal NUL"
  by (simp add: isOctal_def NUL_def)

lemma skipSpaces_digit: "cp \<noteq> [] \<Longrightarrow> isOctal (hd cp) \<Longrightarrow> skipSpaces cp = cp"
  by (cases cp) (auto dest: isOctal_not_space)

lemma getOctal_digits_end:
  assumes "0 \<le> v" and rest: "rest = [] \<or> rest = [NUL]" and small: "v < 2 ^ 63"
  shows "getOctal (replicate a (CHR '' '') @ replicate k (CHR ''0'') @ octalString v @ rest) = v"
proof -
  let ?ds = "replicate k (CHR ''0'') @ octalString v @ rest"
  have ne: "?ds \<noteq> []" by (simp add: octalString_nonempty)
  have h: "isOctal (hd ?ds)"
    using hd_octalString[OF assms(1)] by (cases k) (simp_all add: isOctal_def octalString_nonempty)
  have s: "skipSpaces (replicate a (CHR '' '') @ ?ds) = ?ds"
    using skipSpaces_digit[OF ne h] by (simp add: skipSpaces_replicate)
  have l0: "long 0 = 0" by (simp add: long_id)
  have lv: "long v = v" using assms(1) small by (simp add: long_id)
  have "octalDigits (long 0) ?ds = octalDigits (long v) rest"
    using octalDigits_octalString[OF assms(1), of "0 * 8 ^ k" rest]
    by (simp add: octalDigits_zeros)
  then have d: "octalDigits 0 ?ds = (v, rest)"
    unfolding l0 lv using rest by (auto simp: not_isOctal_NUL)
  have r: "skipSpaces rest = rest" using rest by (auto simp: NUL_def)
  show ?thesis
    unfolding getOctal_def s using ne h d r rest by (auto simp: Let_def)
qed

lemma formatOctal_pad:
  "2 \<le> len \<Longrightarrow> formatOctal (int len - 2) n = replicate (len - 2 - length (octalString n)) (CHR ''0'') @ octalString n"
  by (simp add: formatOctal_def Let_def nat_diff_distrib)

lemma formatOctal_one:
  "formatOctal (int 1 - 2) n = octalString n"
  using octalString_nonempty[of n] by (cases "octalString n") (simp_all add: formatOctal_def Let_def)

lemma putOctal_a:
  assumes "length (octalString (ulong v)) + 2 \<le> len"
  shows "putOctal len v = Some (CHR '' '' # replicate (len - 2 - length (octalString (ulong v))) (CHR ''0'') @ octalString (ulong v) @ [NUL])"
proof -
  have l2: "2 \<le> len" using assms by simp
  show ?thesis
    unfolding putOctal_def formatOctal_pad[OF l2] Let_def using assms by simp
qed

lemma putOctal_b:
  assumes "length (octalString (ulong v)) + 1 = len"
  shows "putOctal len v = Some (octalString (ulong v) @ [NUL])"
proof (cases "len = 1")
  case True
  then show ?thesis using assms octalString_nonempty[of "ulong v"] by simp
next
  case False
  then have l2: "2 \<le> len" using assms by simp
  show ?thesis
    unfolding putOctal_def formatOctal_pad[OF l2] Let_def using assms by auto
qed

lemma putOctal_c:
  assumes "length (octalString (ulong v)) = len"
  shows "putOctal len v = Some (octalString (ulong v))"
proof (cases "len = 1")
  case True
  have "putOctal 1 v = Some (octalString (ulong v))"
    unfolding putOctal_def Let_def using formatOctal_one[of "ulong v"] assms True by simp
  then show ?thesis using True by simp
next
  case False
  then have l2: "2 \<le> len" using assms octalString_nonempty[of "ulong v"] 
    by (cases "octalString (ulong v)") auto
  show ?thesis
    unfolding putOctal_def formatOctal_pad[OF l2] Let_def using assms by auto
qed

lemma putOctal_d:
  assumes "len < length (octalString (ulong v))"
  shows "putOctal len v = None"
proof (cases "2 \<le> len")
  case True
  show ?thesis
    unfolding putOctal_def formatOctal_pad[OF True] Let_def using assms by auto
next
  case False
  then show ?thesis
    unfolding putOctal_def formatOctal_def Let_def using assms by auto
qed

lemma putOctal_fits:
  assumes len: "0 < len" and v0: "0 \<le> v" and vlt: "v < 8 ^ len" and long: "v < 2 ^ 63"
  shows "\<exists>field. putOctal len v = Some field \<and> length field = len \<and> getOctal field = v"
proof -
  have u: "ulong v = v" using v0 long by (simp add: ulong_def)
  let ?d = "length (octalString v)"
  have dlen: "?d \<le> len" using length_octalString[OF v0 len] vlt by simp
  consider (a) "?d + 2 \<le> len" | (b) "?d + 1 = len" | (c) "?d = len" using dlen by linarith
  then show ?thesis
  proof cases
    case a
    have "putOctal len v = Some (replicate 1 (CHR '' '') @ replicate (len - 2 - ?d) (CHR ''0'') @ octalString v @ [NUL])"
      using putOctal_a[of v len] a u by simp
    moreover have "length (replicate 1 (CHR '' '') @ replicate (len - 2 - ?d) (CHR ''0'') @ octalString v @ [NUL]) = len"
      using a by simp
    ultimately show ?thesis
      using getOctal_digits_end[OF v0 _ long, of "[NUL]" 1 "len - 2 - ?d"] by simp
  next
    case b
    have "putOctal len v = Some (octalString v @ [NUL])"
      using putOctal_b[of v len] b u by simp
    then show ?thesis
      using getOctal_digits_end[OF v0 _ long, of "[NUL]" 0 0] b by simp
  next
    case c
    have "putOctal len v = Some (octalString v)"
      using putOctal_c[of v len] c u by simp
    then show ?thesis
      using getOctal_digits_end[OF v0 _ long, of "[]" 0 0] c by simp
  qed
qed

lemma putOctal_too_large:
  assumes big: "8 ^ len \<le> v" and long: "v < 2 ^ 63"
  shows "putOctal len v = None"
proof -
  have "(0::int) \<le> 8 ^ len" by simp
  then have v0: "0 \<le> v" using big by linarith
  have u: "ulong v = v" using v0 long by (simp add: ulong_def)
  have "len < length (octalString v)"
  proof (cases "len = 0")
    case True
    then show ?thesis using octalString_nonempty[of v] by simp
  next
    case False
    then show ?thesis using length_octalString[OF v0, of len] big by simp
  qed
  then show ?thesis using putOctal_d[of len v] u by simp
qed

lemma putOctal_length:
  assumes "putOctal len v = Some f"
  shows "length f = len"
proof -
  let ?d = "length (octalString (ulong v))"
  consider (a) "?d + 2 \<le> len" | (b) "?d + 1 = len" | (c) "?d = len" | (d) "len < ?d"
    by linarith
  then show ?thesis
  proof cases
    case a
    then show ?thesis using putOctal_a[OF a] assms by auto
  next
    case b
    then show ?thesis using putOctal_b[OF b] assms by auto
  next
    case c
    then show ?thesis using putOctal_c[OF c] assms by auto
  next
    case d
    then show ?thesis using putOctal_d[OF d] assms by simp
  qed
qed

text \<open>
  Claim C2.  For a \<open>long\<close> value \<open>v\<close> and a field of \<open>len\<close> bytes: if \<open>v\<close> is
  not negative and has at most \<open>len\<close> octal digits (\<open>v < 8 ^ len\<close>, \<open>len > 0\<close>), then
  \<open>putOctal\<close> succeeds, fills the \<open>len\<close> bytes of the field, and \<open>getOctal\<close> reads
  \<open>v\<close> back from them; if \<open>v\<close> has more than \<open>len\<close> octal digits (\<open>8 ^ len \<le> v\<close>),
  then \<open>putOctal\<close> fails and the field is not written.
\<close>

theorem putOctal_getOctal_roundtrip:
  assumes "- (2 ^ 63) \<le> v" and "v < 2 ^ 63"
  shows "(0 < len \<and> 0 \<le> v \<and> v < 8 ^ len \<longrightarrow>
            (\<exists>field. putOctal len v = Some field \<and> length field = len \<and> getOctal field = v))
       \<and> (8 ^ len \<le> v \<longrightarrow> putOctal len v = None)"
proof (intro conjI impI)
  assume "0 < len \<and> 0 \<le> v \<and> v < 8 ^ len"
  then show "\<exists>field. putOctal len v = Some field \<and> length field = len \<and> getOctal field = v"
    using putOctal_fits[of len v] assms(2) by simp
next
  assume "8 ^ len \<le> v"
  then show "putOctal len v = None"
    using assms(2) by (rule putOctal_too_large)
qed

theorem putOctal_getOctal_roundtrip_witness:
  "(\<exists>field. putOctal 8 493 = Some field \<and> length field = 8 \<and> getOctal field = 493)
   \<and> putOctal 8 (8 ^ 8) = None"
  using putOctal_getOctal_roundtrip[of 493 8] putOctal_getOctal_roundtrip[of "8 ^ 8" 8]
  by simp

lemma skipSpaces_dropWhile: "skipSpaces cp = dropWhile (\<lambda>c. c = CHR '' '') cp"
  by (induction cp) simp_all

lemma octalDigits_wrap:
  "octalDigits (long v) cp =
     (long (foldl (\<lambda>val c. val * 8 + of_char c - 48) v (takeWhile isOctal cp)),
      dropWhile isOctal cp)"
proof (induction cp arbitrary: v)
  case Nil
  show ?case by simp
next
  case (Cons c cp)
  show ?case
  proof (cases "isOctal c")
    case True
    show ?thesis
      unfolding octalDigits_step[OF True] Cons.IH using True by simp
  next
    case False
    then show ?thesis by simp
  qed
qed

lemma foldl_octal_nonneg:
  "(0::int) \<le> val \<Longrightarrow> \<forall>c\<in>set ds. isOctal c \<Longrightarrow>
     0 \<le> foldl (\<lambda>val c. val * 8 + of_char c - 48) val ds"
  by (induction ds arbitrary: val) (auto simp: isOctal_def)

lemma foldl_octal_less:
  "(0::int) \<le> val \<Longrightarrow> \<forall>c\<in>set ds. isOctal c \<Longrightarrow>
     foldl (\<lambda>val c. val * 8 + of_char c - 48) val ds < (val + 1) * 8 ^ length ds"
proof (induction ds arbitrary: val)
  case Nil
  show ?case by simp
next
  case (Cons c ds)
  have c: "(48::int) \<le> of_char c" "(of_char c :: int) \<le> 55"
    using Cons.prems(2) by (simp_all add: isOctal_def)
  have v: "(0::int) \<le> val * 8 + of_char c - 48" using Cons.prems(1) c by simp
  have "foldl (\<lambda>val c. val * 8 + of_char c - 48) (val * 8 + of_char c - 48) ds
      < (val * 8 + of_char c - 48 + 1) * 8 ^ length ds"
    using Cons.IH[OF v] Cons.prems(2) by simp
  also have "\<dots> \<le> ((val + 1) * 8) * 8 ^ length ds"
    using c by (intro mult_right_mono) simp_all
  finally show ?case by (simp add: algebra_simps)
qed

lemma octalValue_nonneg: "0 \<le> octalValue (takeWhile isOctal cp)"
  unfolding octalValue_def by (rule foldl_octal_nonneg) (auto dest: set_takeWhileD)

lemma octalValue_less: "octalValue (takeWhile isOctal cp) < 8 ^ length cp"
proof -
  have "octalValue (takeWhile isOctal cp) < (0 + 1) * 8 ^ length (takeWhile isOctal cp)"
    unfolding octalValue_def by (rule foldl_octal_less) (auto dest: set_takeWhileD)
  also have "\<dots> = (8::int) ^ length (takeWhile isOctal cp)" by simp
  also have "\<dots> \<le> (8::int) ^ length cp"
    by (intro power_increasing) (simp_all add: length_takeWhile_le)
  finally show ?thesis .
qed

lemma parseOctal_unfold:
  "parseOctal field =
     (if takeWhile isOctal (dropWhile (\<lambda>c. c = CHR '' '') field) = [] then None
      else if dropWhile (\<lambda>c. c = CHR '' '')
                (dropWhile isOctal (dropWhile (\<lambda>c. c = CHR '' '') field)) = []
              \<or> hd (dropWhile (\<lambda>c. c = CHR '' '')
                     (dropWhile isOctal (dropWhile (\<lambda>c. c = CHR '' '') field))) = NUL
      then Some (octalValue (takeWhile isOctal (dropWhile (\<lambda>c. c = CHR '' '') field)))
      else None)"
  unfolding parseOctal_def Let_def ..

lemma getOctal_parse:
  "getOctal field = (case parseOctal field of None \<Rightarrow> - 1 | Some val \<Rightarrow> long val)"
proof -
  define rest where "rest = dropWhile (\<lambda>c. c = CHR '' '') field"
  define trail where "trail = dropWhile (\<lambda>c. c = CHR '' '') (dropWhile isOctal rest)"
  have e: "takeWhile isOctal rest = [] \<longleftrightarrow> rest = [] \<or> \<not> isOctal (hd rest)"
    by (cases rest) auto
  have z: "octalDigits 0 rest = octalDigits (long 0) rest" by (simp add: long_id)
  have g: "getOctal field =
      (if rest = [] \<or> \<not> isOctal (hd rest) then - 1
       else if trail \<noteq> [] \<and> hd trail \<noteq> NUL then - 1
       else long (octalValue (takeWhile isOctal rest)))"
    unfolding getOctal_def skipSpaces_dropWhile Let_def rest_def[symmetric] z octalDigits_wrap
      prod.case trail_def[symmetric] octalValue_def ..
  show ?thesis
    unfolding g parseOctal_unfold rest_def[symmetric] trail_def[symmetric] e by simp
qed

lemma parseOctal_nonneg: "parseOctal field = Some val \<Longrightarrow> 0 \<le> val"
  unfolding parseOctal_unfold
  using octalValue_nonneg[of "dropWhile (\<lambda>c. c = CHR '' '') field"]
  by (simp split: if_splits)

lemma parseOctal_less:
  assumes "parseOctal field = Some val"
  shows "val < 8 ^ length field"
proof -
  let ?rest = "dropWhile (\<lambda>c. c = CHR '' '') field"
  have "val = octalValue (takeWhile isOctal ?rest)"
    using assms unfolding parseOctal_unfold by (simp split: if_splits)
  also have "\<dots> < 8 ^ length ?rest" by (rule octalValue_less)
  also have "\<dots> \<le> (8::int) ^ length field"
    by (intro power_increasing) (simp_all add: length_dropWhile_le)
  finally show ?thesis .
qed

lemma parseOctal_long:
  assumes "length field \<le> 21" and "parseOctal field = Some val"
  shows "long val = val"
proof -
  have "val < 8 ^ length field" using assms(2) by (rule parseOctal_less)
  also have "\<dots> \<le> (8::int) ^ 21" using assms(1) by (intro power_increasing) simp_all
  also have "(8::int) ^ 21 = 2 ^ 63" by simp
  finally have "val < 2 ^ 63" .
  moreover have "0 \<le> val" using assms(2) by (rule parseOctal_nonneg)
  ultimately show ?thesis by (simp add: long_id)
qed

lemma getOctal_parse_short:
  assumes "length field \<le> 21"
  shows "getOctal field = (case parseOctal field of None \<Rightarrow> - 1 | Some val \<Rightarrow> val)"
  unfolding getOctal_parse using parseOctal_long[OF assms]
  by (cases "parseOctal field") simp_all

lemma getOctal_negative:
  "length cp \<le> 21 \<Longrightarrow> getOctal cp < 0 \<longleftrightarrow> parseOctal cp = None"
  using getOctal_parse_short[of cp] parseOctal_nonneg[of cp] by (cases "parseOctal cp") auto

lemma getOctal_wraps: "getOctal (replicate 22 (CHR ''7'')) = - 1"
  by code_simp

text \<open>
  Claim C3, as amended.  \<open>getOctal\<close> skips leading spaces, fails with \<open>- 1\<close> when no
  octal digit follows, accumulates the octal digits in a \<open>long\<close>, skips trailing spaces,
  and then fails exactly when a byte is left in the field and that first byte is not null.
  Bytes behind that null byte are not looked at.  For a field of at most 21 bytes (the
  fields of the header have 8 or 12) the accumulator does not wrap: the result is the
  number the digits denote, which is never negative, so \<open>- 1\<close> is the invalid marker only.
\<close>

theorem getOctal_parseOctal:
  "getOctal field = (case parseOctal field of None \<Rightarrow> - 1 | Some val \<Rightarrow> long val)
   \<and> (length field \<le> 21 \<longrightarrow>
        getOctal field = (case parseOctal field of None \<Rightarrow> - 1 | Some val \<Rightarrow> val)
        \<and> (\<forall>val. parseOctal field = Some val \<longrightarrow> 0 \<le> val)
        \<and> (getOctal field = - 1 \<longleftrightarrow> parseOctal field = None))"
proof (intro conjI allI impI)
  show "getOctal field = (case parseOctal field of None \<Rightarrow> - 1 | Some val \<Rightarrow> long val)"
    by (rule getOctal_parse)
next
  assume "length field \<le> 21"
  then show "getOctal field = (case parseOctal field of None \<Rightarrow> - 1 | Some val \<Rightarrow> val)"
    by (rule getOctal_parse_short)
next
  fix val
  assume "parseOctal field = Some val"
  then show "0 \<le> val" by (rule parseOctal_nonneg)
next
  assume l: "length field \<le> 21"
  show "getOctal field = - 1 \<longleftrightarrow> parseOctal field = None"
    using getOctal_parse_short[OF l] parseOctal_nonneg[of field]
    by (cases "parseOctal field") auto
qed

theorem getOctal_parseOctal_witness:
  "length ('' 000644'' @ [NUL]) \<le> 21
   \<and> getOctal ('' 000644'' @ [NUL]) = 420 \<and> parseOctal ('' 000644'' @ [NUL]) = Some 420
   \<and> (0::int) \<le> 420 \<and> long 420 = 420"
proof -
  have p: "parseOctal ('' 000644'' @ [NUL]) = Some 420"
    by (simp add: parseOctal_def octalValue_def isOctal_def NUL_def)
  show ?thesis using getOctal_parseOctal[of "'' 000644'' @ [NUL]"] p by simp
qed

text \<open>
  Claim C3 as stated fails: the field \<open>644\<close>, null, \<open>x\<close>, three spaces holds the byte
  \<open>x\<close>, neither space nor null, behind its digits and padding, and decodes as 420.
\<close>

theorem getOctal_trailing_counterexample:
  "CHR ''x'' \<in> set (''644'' @ [NUL] @ ''x   '') \<and> CHR ''x'' \<noteq> CHR '' '' \<and> CHR ''x'' \<noteq> NUL
   \<and> getOctal (''644'' @ [NUL] @ ''x   '') = 420 \<and> getOctal (''644'' @ [NUL] @ ''x   '') \<noteq> - 1"
proof -
  have p: "parseOctal (''644'' @ [NUL] @ ''x   '') = Some 420"
    by (simp add: parseOctal_def octalValue_def isOctal_def NUL_def)
  have "getOctal (''644'' @ [NUL] @ ''x   '') = 420"
    using getOctal_parse_short[of "''644'' @ [NUL] @ ''x   ''"] p by simp
  then show ?thesis by (simp add: NUL_def)
qed
section \<open>Properties of the selection filter\<close>

lemma wantFileName_loop_iff:
  "wantFileName_loop fileName fileTable \<longleftrightarrow>
     (\<exists>pathName\<in>set fileTable. \<exists>rest. fileName = pathName @ rest \<and> (rest = [] \<or> hd rest = CHR ''/''))"
proof (induction fileTable)
  case Nil
  show ?case by simp
next
  case (Cons pathName fileTable)
  have m: "(\<not> length fileName < length pathName \<and> take (length pathName) fileName = pathName
            \<and> (length fileName = length pathName \<or> fileName ! length pathName = CHR ''/''))
        \<longleftrightarrow> (\<exists>rest. fileName = pathName @ rest \<and> (rest = [] \<or> hd rest = CHR ''/''))"
    (is "?L \<longleftrightarrow> ?R")
  proof
    assume l: ?L
    define rest where "rest = drop (length pathName) fileName"
    have f: "fileName = pathName @ rest"
      using l by (metis append_take_drop_id rest_def)
    have "rest = [] \<or> hd rest = CHR ''/''"
      using l f by (cases rest) (auto simp: nth_append)
    with f show ?R by blast
  next
    assume ?R
    then obtain rest where "fileName = pathName @ rest" "rest = [] \<or> hd rest = CHR ''/''" by blast
    then show ?L by (cases rest) (auto simp: nth_append)
  qed
  show ?case
    using Cons.IH m by (auto simp: Let_def)
qed

text \<open>
  Claim C5.  \<open>wantFileName\<close> is true for every name when the table of prefixes is empty;
  otherwise it is true exactly when the name is some prefix of the table followed by
  nothing or by a rest that starts with a slash.  The four examples of the
  specification are instances.
\<close>

theorem wantFileName_matches:
  "(wantFileName fileName fileTable \<longleftrightarrow>
      fileTable = [] \<or>
      (\<exists>pathName\<in>set fileTable. \<exists>rest.
          fileName = pathName @ rest \<and> (rest = [] \<or> hd rest = CHR ''/'')))
   \<and> wantFileName ''a/b'' [''a''] \<and> \<not> wantFileName ''ab'' [''a'']
   \<and> \<not> wantFileName ''a'' [''a/b''] \<and> wantFileName fileName []"
  by (simp add: wantFileName_def wantFileName_loop_iff)

theorem wantFileName_matches_witness:
  "wantFileName ''usr/bin/tar'' [''etc'', ''usr/bin'']
   \<and> ''usr/bin'' \<in> set [''etc'', ''usr/bin''] \<and> ''usr/bin/tar'' = ''usr/bin'' @ ''/tar''"
  using wantFileName_matches[of "''usr/bin/tar''" "[''etc'', ''usr/bin'']"]
  by auto

section \<open>Properties of the writer\<close>

lemma length_store: "off + length bytes \<le> length mem \<Longrightarrow> length (store off bytes mem) = length mem"
  by (simp add: store_def)

lemma length_putOctalMember:
  "fst m + snd m \<le> length mem \<Longrightarrow> length (putOctalMember m v mem) = length mem"
  by (auto simp: putOctalMember_def length_store dest: putOctal_length split: option.splits)

lemma foldl_byteSum: "foldl (\<lambda>checkSum c. checkSum + of_char c) v mem = v + byteSum mem"
proof (induction mem arbitrary: v)
  case Nil
  show ?case by (simp add: byteSum_def)
next
  case (Cons c mem)
  show ?case using Cons[of "v + of_char c"] Cons[of "of_char c"] by (simp add: byteSum_def)
qed

lemma byteSum_append: "byteSum (a @ b) = byteSum a + byteSum b"
proof -
  have "byteSum (a @ b) = foldl (\<lambda>checkSum c. checkSum + of_char c) (byteSum a) b"
    by (simp add: byteSum_def)
  then show ?thesis by (simp add: foldl_byteSum)
qed

lemma byteSum_Cons: "byteSum (c # a) = of_char c + byteSum a"
  using byteSum_append[of "[c]" a] by (simp add: byteSum_def)

lemma byteSum_nulls: "byteSum (replicate n NUL) = 0"
  by (induction n) (simp_all add: byteSum_Cons, simp_all add: byteSum_def NUL_def)

lemma byteSum_bounds: "0 \<le> byteSum mem \<and> byteSum mem \<le> 255 * int (length mem)"
proof (induction mem)
  case Nil
  show ?case by (simp add: byteSum_def)
next
  case (Cons c mem)
  have "(of_char c :: int) = int (of_char c)" by (simp add: of_nat_of_char)
  moreover have "(of_char c :: nat) < 256" by simp
  ultimately have "(0::int) \<le> of_char c \<and> (of_char c :: int) \<le> 255" by linarith
  then show ?case using Cons by (simp add: byteSum_Cons)
qed

lemma writeTarBlock_ok:
  assumes "\<not> errorFlag s" "writeResults s = []"
  shows "writeTarBlock s bytes =
         s\<lparr>tarOut := tarOut s @ bytes
              @ replicate ((TAR_BLOCK_SIZE - length bytes mod TAR_BLOCK_SIZE) mod TAR_BLOCK_SIZE) NUL\<rparr>"
proof -
  let ?p = "length bytes mod TAR_BLOCK_SIZE"
  let ?c = "length bytes - ?p"
  have fw: "fullWrite t b = (int (length b), t\<lparr>tarOut := tarOut t @ b\<rparr>)" if "writeResults t = []" for t b
    using that by (simp add: fullWrite_def)
  have td: "take ?c bytes @ drop ?c bytes = bytes" by simp
  show ?thesis
  proof (cases "?c > 0")
    case True
    show ?thesis
    proof (cases "?p = 0")
      case p: True
      then show ?thesis using True assms
        by (simp add: writeTarBlock_def Let_def fw TAR_BLOCK_SIZE_def)
    next
      case p: False
      have "writeTarBlock s bytes = s\<lparr>tarOut := tarOut s @ take ?c bytes @ drop ?c bytes @ replicate (TAR_BLOCK_SIZE - ?p) NUL\<rparr>"
        using True p assms
        by (simp add: writeTarBlock_def Let_def fw TAR_BLOCK_SIZE_def)
      moreover have "(TAR_BLOCK_SIZE - ?p) mod TAR_BLOCK_SIZE = TAR_BLOCK_SIZE - ?p"
        using p by (simp add: TAR_BLOCK_SIZE_def)
      ultimately show ?thesis using td by (metis append.assoc)
    qed
  next
    case False
    then have c0: "?c = 0" by simp
    show ?thesis
    proof (cases "?p = 0")
      case p: True
      then have "bytes = []" using c0 by simp
      then show ?thesis using assms by (simp add: writeTarBlock_def Let_def TAR_BLOCK_SIZE_def)
    next
      case p: False
      have "writeTarBlock s bytes = s\<lparr>tarOut := tarOut s @ drop ?c bytes @ replicate (TAR_BLOCK_SIZE - ?p) NUL\<rparr>"
        using False p assms
        by (simp add: writeTarBlock_def Let_def fw TAR_BLOCK_SIZE_def)
      moreover have "(TAR_BLOCK_SIZE - ?p) mod TAR_BLOCK_SIZE = TAR_BLOCK_SIZE - ?p"
        using p by (simp add: TAR_BLOCK_SIZE_def)
      ultimately show ?thesis using c0 by simp
    qed
  qed
qed


lemma buildHeader_form:
  assumes "length fileName \<le> TAR_NAME_SIZE"
  shows "\<exists>h. length h = sizeof_TarHeader \<and>
           buildHeader fileName statbuf =
             putOctalMember h_checkSum
               (byteSum (take sizeof_TarHeader
                  (store (fst h_checkSum) (replicate (snd h_checkSum) (CHR '' '')) h)))
               (store (fst h_checkSum) (replicate (snd h_checkSum) (CHR '' '')) h)"
  unfolding buildHeader_def Let_def
  apply (rule exI)
  apply (rule conjI)
   prefer 2
   apply (rule refl)
  using assms
  apply (simp add: length_store length_putOctalMember h_name_def h_mode_def h_uid_def h_gid_def
      h_size_def h_mtime_def h_typeFlag_def h_magic_def h_version_def strncpy_def
      sizeof_TarHeader_def TAR_NAME_SIZE_def)
  done

lemma checksum_member:
  assumes h: "length h = sizeof_TarHeader"
  defines "blank \<equiv> store (fst h_checkSum) (replicate (snd h_checkSum) (CHR '' '')) h"
  defines "header \<equiv> putOctalMember h_checkSum (byteSum (take sizeof_TarHeader blank)) blank"
  shows "length header = sizeof_TarHeader"
    and "getOctal (bytesOf h_checkSum header) = byteSum blank"
    and "store (fst h_checkSum) (replicate (snd h_checkSum) (CHR '' '')) header = blank"
proof -
  have lb: "length blank = 500"
    using h by (simp add: blank_def length_store h_checkSum_def sizeof_TarHeader_def)
  have tb: "take sizeof_TarHeader blank = blank" using lb by (simp add: sizeof_TarHeader_def)
  have b: "0 \<le> byteSum blank" "byteSum blank \<le> 127500"
    using byteSum_bounds[of blank] lb by simp_all
  obtain f where f: "putOctal 8 (byteSum blank) = Some f" "length f = 8" "getOctal f = byteSum blank"
    using putOctal_fits[of 8 "byteSum blank"] b by auto
  have hd: "header = store 148 f blank"
    by (simp add: header_def tb putOctalMember_def h_checkSum_def f)
  show "length header = sizeof_TarHeader"
    using lb f(2) by (simp add: hd length_store sizeof_TarHeader_def)
  show "getOctal (bytesOf h_checkSum header) = byteSum blank"
    using lb f(2,3) by (simp add: hd bytesOf_def h_checkSum_def store_def)
  show "store (fst h_checkSum) (replicate (snd h_checkSum) (CHR '' '')) header = blank"
    using lb f(2) h
    by (simp add: hd blank_def h_checkSum_def store_def sizeof_TarHeader_def)
qed




lemma byteSum_sum_list: "byteSum mem = sum_list (map of_char mem)"
  by (induction mem) (simp add: byteSum_def, simp add: byteSum_Cons)

text \<open>
  Claim C1.  Whenever \<open>writeHeader\<close> emits a header (no error so far, the write
  succeeds, the name fits), the block of 512 bytes it appends to the archive decodes, in
  its checksum member (the 8 bytes at offset 148), to the sum of the 512 bytes of that
  block taken as unsigned values, with the eight bytes of the checksum member replaced by
  spaces.
\<close>

theorem writeHeader_checksum:
  assumes "length fileName \<le> TAR_NAME_SIZE" and "\<not> errorFlag s" and "writeResults s = []"
  shows "\<exists>block. tarOut (writeHeader s fileName statbuf) = tarOut s @ block
            \<and> length block = 512
            \<and> getOctal (take 8 (drop 148 block))
                = sum_list (map of_char (take 148 block @ replicate 8 (CHR '' '') @ drop 156 block))"
proof -
  obtain h where h: "length h = sizeof_TarHeader"
    and bh: "buildHeader fileName statbuf =
             putOctalMember h_checkSum
               (byteSum (take sizeof_TarHeader
                  (store (fst h_checkSum) (replicate (snd h_checkSum) (CHR '' '')) h)))
               (store (fst h_checkSum) (replicate (snd h_checkSum) (CHR '' '')) h)"
    using buildHeader_form[OF assms(1)] by blast
  define blank where "blank = store (fst h_checkSum) (replicate (snd h_checkSum) (CHR '' '')) h"
  define header where "header = buildHeader fileName statbuf"
  have len: "length header = sizeof_TarHeader"
    and sum: "getOctal (bytesOf h_checkSum header) = byteSum blank"
    and bl: "store (fst h_checkSum) (replicate (snd h_checkSum) (CHR '' '')) header = blank"
    unfolding header_def bh blank_def using checksum_member[OF h] by simp_all
  define block where "block = header @ replicate 12 NUL"
  have "writeHeader s fileName statbuf = s\<lparr>tarOut := tarOut s @ block\<rparr>"
    using len writeTarBlock_ok[OF assms(2,3), of header]
    by (simp add: writeHeader_def header_def[symmetric] block_def sizeof_TarHeader_def
        TAR_BLOCK_SIZE_def)
  then have 1: "tarOut (writeHeader s fileName statbuf) = tarOut s @ block" by simp
  have 2: "length block = 512"
    using len by (simp add: block_def sizeof_TarHeader_def)
  have "bytesOf h_checkSum block = bytesOf h_checkSum header"
    using len by (simp add: block_def bytesOf_def h_checkSum_def sizeof_TarHeader_def)
  moreover have "store (fst h_checkSum) (replicate (snd h_checkSum) (CHR '' '')) block
      = blank @ replicate 12 NUL"
    using len unfolding bl[symmetric]
    by (simp add: block_def store_def h_checkSum_def sizeof_TarHeader_def)
  ultimately have "getOctal (bytesOf h_checkSum block)
      = byteSum (store (fst h_checkSum) (replicate (snd h_checkSum) (CHR '' '')) block)"
    using sum by (simp add: byteSum_append byteSum_nulls)
  then have 3: "getOctal (take 8 (drop 148 block))
      = sum_list (map of_char (take 148 block @ replicate 8 (CHR '' '') @ drop 156 block))"
    unfolding byteSum_sum_list by (simp add: bytesOf_def store_def h_checkSum_def)
  show ?thesis using 1 2 3 by blast
qed

theorem writeHeader_checksum_witness:
  "length ''hello.txt'' \<le> TAR_NAME_SIZE \<and> \<not> errorFlag initialState
   \<and> writeResults initialState = []
   \<and> (\<exists>block. tarOut (writeHeader initialState ''hello.txt'' exampleStat)
                   = tarOut initialState @ block
            \<and> length block = 512
            \<and> getOctal (take 8 (drop 148 block))
                = sum_list (map of_char
                    (take 148 block @ replicate 8 (CHR '' '') @ drop 156 block)))"
  using writeHeader_checksum[of "''hello.txt''" initialState exampleStat]
  by (simp add: initialState_def TAR_NAME_SIZE_def)

lemma say_writer [simp]:
  "errorFlag (say es s) = errorFlag s" "writeResults (say es s) = writeResults s"
  "tarOut (say es s) = tarOut s"
  by (simp_all add: say_def)

















lemma extends_say_left: "extends (say es s) t \<Longrightarrow> extends s t"
  by (simp add: extends_def say_def)













section \<open>Properties of the reader\<close>

lemma and_or_S_IFDIR: "(m OR S_IFDIR) AND S_IFMT = (m AND S_IFMT) OR S_IFDIR"
  by (simp add: S_IFDIR_def S_IFMT_def bit.conj_disj_distrib2)

lemma no_type_bits:
  assumes "m AND S_IFMT = 0"
  shows "\<not> carriesData m" and "\<not> carriesData (m OR S_IFDIR)" and "S_ISDIR (m OR S_IFDIR)"
  using assms and_or_S_IFDIR[of m]
  by (simp_all add: carriesData_def S_ISREG_def S_ISCHR_def S_ISBLK_def S_ISSOCK_def S_ISFIFO_def
      S_ISDIR_def S_IFREG_def S_IFCHR_def S_IFBLK_def S_IFSOCK_def S_IFIFO_def S_IFDIR_def S_IFMT_def)

lemma unwanted_sel [simp]:
  "badHeader (readHeader_unwanted h l z s) = badHeader s"
  "mode (readHeader_unwanted h l z s) = mode s"
  "eofFlag (readHeader_unwanted h l z s) = eofFlag s"
  "errorFlag (readHeader_unwanted h l z s) = errorFlag s"
  "buf (readHeader_unwanted h l z s) = buf s"
  "trace (readHeader_unwanted h l z s) = trace s"
  "extractFlag (readHeader_unwanted h l z s) = extractFlag s"
  "verboseFlag (readHeader_unwanted h l z s) = verboseFlag s"
  "tostdoutFlag (readHeader_unwanted h l z s) = tostdoutFlag s"
  "tarFd (readHeader_unwanted h l z s) = tarFd s"
  "tarName (readHeader_unwanted h l z s) = tarName s"
  "outFd (readHeader_unwanted h l z s) = outFd s"
  by (simp_all add: readHeader_unwanted_def)

lemma list_sel [simp]:
  "badHeader (readHeader_list n ln h l z ma mi s) = badHeader s"
  "mode (readHeader_list n ln h l z ma mi s) = mode s"
  "eofFlag (readHeader_list n ln h l z ma mi s) = eofFlag s"
  "errorFlag (readHeader_list n ln h l z ma mi s) = errorFlag s"
  "buf (readHeader_list n ln h l z ma mi s) = buf s"
  "extractFlag (readHeader_list n ln h l z ma mi s) = extractFlag s"
  "verboseFlag (readHeader_list n ln h l z ma mi s) = verboseFlag s"
  "tostdoutFlag (readHeader_list n ln h l z ma mi s) = tostdoutFlag s"
  "tarFd (readHeader_list n ln h l z ma mi s) = tarFd s"
  "tarName (readHeader_list n ln h l z ma mi s) = tarName s"
  "outFd (readHeader_list n ln h l z ma mi s) = outFd s"
  by (simp_all add: readHeader_list_def Let_def say_def)

lemma extract_sel [simp]:
  "badHeader (readHeader_extract k n ln h l z ma mi s) = badHeader s"
  "mode (readHeader_extract k n ln h l z ma mi s) = mode s"
  "eofFlag (readHeader_extract k n ln h l z ma mi s) = eofFlag s"
  "errorFlag (readHeader_extract k n ln h l z ma mi s) = errorFlag s"
  "buf (readHeader_extract k n ln h l z ma mi s) = buf s"
  by (simp_all add: readHeader_extract_def Let_def say_def)

lemma entry_sel:
  "badHeader (readHeader_entry k ft hp mem z ma mi s) = False"
  "mode (readHeader_entry k ft hp mem z ma mi s)
     = (if last (cstring mem) = CHR ''/'' then mode s OR S_IFDIR else mode s)"
  "eofFlag (readHeader_entry k ft hp mem z ma mi s) = eofFlag s"
  "errorFlag (readHeader_entry k ft hp mem z ma mi s) = errorFlag s"
  "buf (readHeader_entry k ft hp mem z ma mi s) = buf s"
  by (simp_all add: readHeader_entry_def Let_def say_def)

lemma readHeader_named:
  assumes "hd (drop hp (buf s)) \<noteq> NUL"
  shows "readHeader k ft hp s =
     (if headerFieldsBad (drop hp (buf s))
      then say (if badHeader s then [] else [badHeaderWarning]) (decoded hp s\<lparr>badHeader := True\<rparr>)
      else readHeader_entry k ft hp (drop hp (buf s)) (getOctal (bytesOf h_size (drop hp (buf s))))
             (getOctal (bytesOf h_devMajor (drop hp (buf s))) mod 2 ^ 32)
             (getOctal (bytesOf h_devMinor (drop hp (buf s))) mod 2 ^ 32) (decoded hp s))"
proof -
  have neg:
    "parseOctal (bytesOf h_mode mem) = None \<longleftrightarrow> getOctal (bytesOf h_mode mem) < 0"
    "parseOctal (bytesOf h_uid mem) = None \<longleftrightarrow> getOctal (bytesOf h_uid mem) < 0"
    "parseOctal (bytesOf h_gid mem) = None \<longleftrightarrow> getOctal (bytesOf h_gid mem) < 0"
    "parseOctal (bytesOf h_size mem) = None \<longleftrightarrow> getOctal (bytesOf h_size mem) < 0"
    for mem
    using getOctal_negative[of "bytesOf h_mode mem"] getOctal_negative[of "bytesOf h_uid mem"]
      getOctal_negative[of "bytesOf h_gid mem"] getOctal_negative[of "bytesOf h_size mem"]
    by (simp_all add: bytesOf_def h_mode_def h_uid_def h_gid_def h_size_def)
  show ?thesis
    using assms
    by (simp add: readHeader_def Let_def headerFieldsBad_def neg decoded_def badHeaderWarning_def)
qed

lemma entryName_eq:
  "(if hd name = CHR ''/'' then drop (length (takeWhile (\<lambda>c. c = CHR ''/'') name)) name else name)
     = dropWhile (\<lambda>c. c = CHR ''/'') name"
  by (cases name) (auto simp: dropWhile_eq_drop)

lemma entry_data_state:
  assumes "\<not> wantFileName (entryName mem) ft \<or> \<not> extractFlag s"
  defines "m \<equiv> (if last (cstring mem) = CHR ''/'' then mode s OR S_IFDIR else mode s)"
  shows "inHeader (readHeader_entry k ft hp mem z ma mi s)
           = (if \<not> isHardLink mem \<and> \<not> isSoftLink mem \<and> carriesData m then z = 0 else inHeader s)"
    and "dataCc (readHeader_entry k ft hp mem z ma mi s)
           = (if \<not> isHardLink mem \<and> \<not> isSoftLink mem \<and> carriesData m then z else dataCc s)"
  using assms(1) unfolding m_def readHeader_entry_def Let_def entryName_eq
  by (auto simp: readHeader_unwanted_def readHeader_list_def Let_def say_def entryName_def
      isHardLink_def isSoftLink_def TAR_TYPE_HARD_LINK_def TAR_TYPE_SOFT_LINK_def)

lemma entry_list_trace:
  assumes "\<not> extractFlag s" and "wantFileName (entryName mem) ft" and "\<not> verboseFlag s"
    and "hd (cstring mem) \<noteq> CHR ''/''"
  shows "trace (readHeader_entry k ft hp mem z ma mi s)
           = trace s @ [Stdout (entryName mem)] @ linkAnnotation mem @ [Stdout [CHR 0x0A]]"
  using assms unfolding readHeader_entry_def Let_def entryName_eq
  by (auto simp: readHeader_list_def Let_def say_def entryName_def linkAnnotation_def
      isHardLink_def isSoftLink_def TAR_TYPE_HARD_LINK_def TAR_TYPE_SOFT_LINK_def h_linkName_def)

lemma decoded_sel [simp]:
  "buf (decoded hp s) = buf s" "inHeader (decoded hp s) = inHeader s"
  "eofFlag (decoded hp s) = eofFlag s" "errorFlag (decoded hp s) = errorFlag s"
  "dataCc (decoded hp s) = dataCc s" "badHeader (decoded hp s) = badHeader s"
  "trace (decoded hp s) = trace s" "extractFlag (decoded hp s) = extractFlag s"
  "verboseFlag (decoded hp s) = verboseFlag s" "tostdoutFlag (decoded hp s) = tostdoutFlag s"
  "outFd (decoded hp s) = outFd s" "tarFd (decoded hp s) = tarFd s"
  "tarName (decoded hp s) = tarName s"
  "mode (decoded hp s) = getOctal (bytesOf h_mode (drop hp (buf s)))"
  by (simp_all add: decoded_def)

text \<open>
  Claim C4, as amended.  A block whose name is not empty is treated as a bad header exactly
  when one of the fields mode, uid, gid and size fails to decode; then \<open>readHeader\<close>
  returns with the flag \<open>badHeader\<close> set, the warning printed unless the flag was set
  already, and nothing else changed but the four globals that hold the decoded fields: no
  entry is listed or extracted and the reader stays where it is.  A field that decodes to
  zero is not a failure.  The fields mtime, checksum, device major and device minor are
  decoded but never tested.
\<close>

theorem readHeader_bad_header:
  assumes "hd (drop hp (buf s)) \<noteq> NUL"
  shows "(headerFieldsBad (drop hp (buf s)) \<longrightarrow>
            readHeader k fileTable hp s
              = say (if badHeader s then [] else [badHeaderWarning])
                  (decoded hp s\<lparr>badHeader := True\<rparr>))
       \<and> (badHeader (readHeader k fileTable hp s) \<longleftrightarrow> headerFieldsBad (drop hp (buf s)))"
  unfolding readHeader_named[OF assms]
  by (simp add: entry_sel say_def)

lemma badBlock_facts:
  "length badBlock = 512" "hd (badBlock @ rest) \<noteq> NUL" "headerFieldsBad (badBlock @ rest)"
  by (simp_all add: badBlock_def headerFieldsBad_def parseOctal_unfold bytesOf_def h_mode_def
      isOctal_def NUL_def)

theorem readHeader_bad_header_witness:
  "hd (drop 0 (buf (listingState badBlock))) \<noteq> NUL
   \<and> headerFieldsBad (drop 0 (buf (listingState badBlock)))
   \<and> readHeader (\<lambda>call. 0) [] 0 (listingState badBlock)
       = say [badHeaderWarning] (decoded 0 (listingState badBlock)\<lparr>badHeader := True\<rparr>)
   \<and> badHeader (readHeader (\<lambda>call. 0) [] 0 (listingState badBlock))"
proof -
  have h: "hd (drop 0 (buf (listingState badBlock))) \<noteq> NUL"
    using badBlock_facts(2)[of "[]"] by (simp add: listingState_def)
  have b: "headerFieldsBad (drop 0 (buf (listingState badBlock)))"
    using badBlock_facts(3)[of "[]"] by (simp add: listingState_def)
  have n: "\<not> badHeader (listingState badBlock)"
    by (simp add: listingState_def initialState_def)
  show ?thesis
    using readHeader_bad_header[OF h, of "\<lambda>call. 0" "[]"] h b n by (simp add: say_def)
qed

lemma bytesOf_append: "fst m + snd m \<le> length b \<Longrightarrow> bytesOf m (b @ c) = bytesOf m b"
  by (simp add: bytesOf_def)

lemma cstring_append: "NUL \<in> set b \<Longrightarrow> cstring (b @ c) = cstring b"
  by (simp add: cstring_def takeWhile_append1)

lemma headerFieldsBad_append: "136 \<le> length b \<Longrightarrow> headerFieldsBad (b @ c) = headerFieldsBad b"
  by (simp add: headerFieldsBad_def bytesOf_append h_mode_def h_uid_def h_gid_def h_size_def)

lemma exampleHeader_written:
  "buildHeader ''hello.txt'' exampleStat @ replicate 12 NUL = exampleHeader"
  by code_simp

lemma exampleHeader_fields:
  "getOctal (bytesOf h_mode exampleHeader) = 420"
  "parseOctal (bytesOf h_mode exampleHeader) = Some 420"
  "parseOctal (bytesOf h_uid exampleHeader) = Some 1000"
  "parseOctal (bytesOf h_gid exampleHeader) = Some 1000"
  "parseOctal (bytesOf h_size exampleHeader) = Some 4"
  "parseOctal (bytesOf h_devMajor exampleHeader) = None"
  "hd (bytesOf h_typeFlag exampleHeader) = CHR ''0''"
  "cstring exampleHeader = ''hello.txt''"
  "length exampleHeader = 512"
  "hd exampleHeader = CHR ''h''"
  by code_simp+

lemma exampleHeader_valid:
  "hd (exampleHeader @ rest) \<noteq> NUL" "\<not> headerFieldsBad (exampleHeader @ rest)"
  "cstring (exampleHeader @ rest) = ''hello.txt''"
  "getOctal (bytesOf h_mode (exampleHeader @ rest)) = 420"
  "linkAnnotation (exampleHeader @ rest) = []"
proof -
  have n: "NUL \<in> set exampleHeader" by (simp add: exampleHeader_def)
  have ne: "exampleHeader \<noteq> []" by (simp add: exampleHeader_def)
  show "hd (exampleHeader @ rest) \<noteq> NUL"
    using ne exampleHeader_fields(10) by (simp add: NUL_def)
  show "\<not> headerFieldsBad (exampleHeader @ rest)"
    using exampleHeader_fields(2-5,9) by (simp add: headerFieldsBad_append) (simp add: headerFieldsBad_def)
  show "cstring (exampleHeader @ rest) = ''hello.txt''"
    using cstring_append[OF n] exampleHeader_fields(8) by simp
  show "getOctal (bytesOf h_mode (exampleHeader @ rest)) = 420"
    using exampleHeader_fields(1,9) by (simp add: bytesOf_append h_mode_def)
  have "bytesOf h_typeFlag (exampleHeader @ rest) = bytesOf h_typeFlag exampleHeader"
    using exampleHeader_fields(9) by (simp add: bytesOf_append h_typeFlag_def)
  then show "linkAnnotation (exampleHeader @ rest) = []"
    using exampleHeader_fields(7) by (simp add: linkAnnotation_def isHardLink_def isSoftLink_def)
qed

text \<open>
  Claim C4 as stated fails: in the header that this program writes for \<open>hello.txt\<close> the
  device fields are null bytes and do not decode, and the header is listed, not skipped.
\<close>

theorem readHeader_unchecked_fields_counterexample:
  "hd (drop 0 (buf (listingState exampleHeader))) \<noteq> NUL
   \<and> parseOctal (bytesOf h_devMajor (drop 0 (buf (listingState exampleHeader)))) = None
   \<and> \<not> badHeader (readHeader (\<lambda>call. 0) [] 0 (listingState exampleHeader))
   \<and> trace (readHeader (\<lambda>call. 0) [] 0 (listingState exampleHeader))
       = [Stdout ''hello.txt'', Stdout [CHR 0x0A]]"
proof -
  let ?s = "listingState exampleHeader"
  note ev = exampleHeader_valid[of "[]", simplified]
  have m: "drop 0 (buf ?s) = exampleHeader" by (simp add: listingState_def)
  have h: "hd (drop 0 (buf ?s)) \<noteq> NUL" unfolding m by (rule ev)
  have v: "\<not> headerFieldsBad (drop 0 (buf ?s))" unfolding m by (rule ev)
  have f: "\<not> extractFlag (decoded 0 ?s)" "\<not> verboseFlag (decoded 0 ?s)" "trace (decoded 0 ?s) = []"
    by (simp_all add: listingState_def initialState_def)
  have n: "entryName exampleHeader = ''hello.txt''" "hd (cstring exampleHeader) \<noteq> CHR ''/''"
    unfolding ev(3) entryName_def by simp_all
  have w: "wantFileName (entryName exampleHeader) []" by (simp add: wantFileName_def)
  have "readHeader (\<lambda>call. 0) [] 0 ?s
      = readHeader_entry (\<lambda>call. 0) [] 0 exampleHeader (getOctal (bytesOf h_size exampleHeader))
             (getOctal (bytesOf h_devMajor exampleHeader) mod 2 ^ 32)
             (getOctal (bytesOf h_devMinor exampleHeader) mod 2 ^ 32) (decoded 0 ?s)"
    unfolding readHeader_named[OF h] m using v[unfolded m] by simp
  then have t: "trace (readHeader (\<lambda>call. 0) [] 0 ?s) = [Stdout ''hello.txt'', Stdout [CHR 0x0A]]"
    and b: "\<not> badHeader (readHeader (\<lambda>call. 0) [] 0 ?s)"
    using entry_list_trace[OF f(1) w f(2) n(2), of "\<lambda>call. 0" 0] f(3) n(1) ev(5)
    by (simp_all add: entry_sel)
  show ?thesis using h b t exampleHeader_fields(6) m by simp
qed

lemma readTarFile_loop_header:
  assumes "\<not> eofFlag s" and "inHeader s" and "0 < inCc"
  shows "readTarFile_loop k fileTable blockSize tarIn cp inCc s
       = readTarFile_loop k fileTable blockSize tarIn (cp + TAR_BLOCK_SIZE)
           (inCc - int TAR_BLOCK_SIZE) (readHeader k fileTable cp s)"
  using assms
  by (subst readTarFile_loop.simps) (simp add: readTarFile_block_def)

lemma readTarFile_loop_read:
  assumes "\<not> eofFlag s" and "inHeader s" and "inCc \<le> 0" and "goodReads tarIn = None"
    and "content tarIn \<noteq> []" and "0 < blockSize"
  shows "readTarFile_loop k fileTable blockSize tarIn cp inCc s
       = readTarFile_loop k fileTable blockSize
           (tarIn\<lparr>content := drop blockSize (content tarIn), goodReads := None\<rparr>)
           TAR_BLOCK_SIZE
           (int (length (take blockSize (content tarIn))) - int TAR_BLOCK_SIZE)
           (readHeader k fileTable 0
              (s\<lparr>buf := store 0 (take blockSize (content tarIn)) (buf s)\<rparr>))"
proof -
  define bytes where "bytes = take blockSize (content tarIn)"
  have pos: "0 < length bytes"
    using assms(5,6) by (cases "content tarIn") (auto simp: bytes_def)
  have r: "fullRead tarIn blockSize
      = (int (length bytes), bytes, tarIn\<lparr>content := drop blockSize (content tarIn), goodReads := None\<rparr>)"
    using assms(4) by (simp add: fullRead_def bytes_def)
  show ?thesis
    unfolding bytes_def[symmetric]
    using assms(1-3) pos
    by (subst readTarFile_loop.simps) (simp add: r readTarFile_block_def)
qed

lemma readTarFile_loop_eof:
  "eofFlag s \<Longrightarrow> readTarFile_loop k fileTable blockSize tarIn cp inCc s = s"
  by (subst readTarFile_loop.simps) simp

lemma listingAt_bad:
  assumes "listingAt B b tr t" and "hd (drop hp B) \<noteq> NUL" and "headerFieldsBad (drop hp B)"
  shows "listingAt B True (tr @ (if b then [] else [badHeaderWarning])) (readHeader k ft hp t)"
proof -
  have bt: "buf t = B" using assms(1) by (simp add: listingAt_def)
  show ?thesis
    using assms unfolding readHeader_named[of hp t, unfolded bt, OF assms(2)]
    by (simp add: listingAt_def say_def decoded_def)
qed

lemma entry_list_flags:
  assumes "\<not> extractFlag s"
  shows "extractFlag (readHeader_entry k ft hp mem z ma mi s) = extractFlag s"
    and "verboseFlag (readHeader_entry k ft hp mem z ma mi s) = verboseFlag s"
    and "tostdoutFlag (readHeader_entry k ft hp mem z ma mi s) = tostdoutFlag s"
    and "outFd (readHeader_entry k ft hp mem z ma mi s) = outFd s"
    and "tarFd (readHeader_entry k ft hp mem z ma mi s) = tarFd s"
    and "tarName (readHeader_entry k ft hp mem z ma mi s) = tarName s"
  using assms
  by (simp_all add: readHeader_entry_def Let_def say_def)

lemma listingAt_hello:
  assumes "listingAt B b tr t" and "drop hp B = exampleHeader @ rest"
  shows "listingAt B False (tr @ [Stdout ''hello.txt'', Stdout [CHR 0x0A]]) (readHeader k [] hp t)"
proof -
  have bt: "buf t = B" and fl: "\<not> extractFlag t" "\<not> verboseFlag t" "inHeader t"
    using assms(1) by (simp_all add: listingAt_def)
  note ev = exampleHeader_valid[of rest]
  let ?mem = "exampleHeader @ rest"
  have f: "\<not> extractFlag (decoded hp t)" "\<not> verboseFlag (decoded hp t)"
    using fl by simp_all
  have n: "entryName ?mem = ''hello.txt''" "hd (cstring ?mem) \<noteq> CHR ''/''"
    unfolding ev(3) entryName_def by simp_all
  have w: "wantFileName (entryName ?mem) []" by (simp add: wantFileName_def)
  have md: "mode (decoded hp t) = 420" using ev(4) by (simp add: bt assms(2))
  have nd: "\<not> carriesData (if last (cstring ?mem) = CHR ''/'' then mode (decoded hp t) OR S_IFDIR
                          else mode (decoded hp t))"
    unfolding md ev(3) using no_type_bits(1)[of 420] by (simp add: S_IFMT_def)
  have r: "readHeader k [] hp t
      = readHeader_entry k [] hp ?mem (getOctal (bytesOf h_size ?mem))
             (getOctal (bytesOf h_devMajor ?mem) mod 2 ^ 32)
             (getOctal (bytesOf h_devMinor ?mem) mod 2 ^ 32) (decoded hp t)"
    using readHeader_named[of hp t k "[]"] ev(1,2) by (simp add: bt assms(2))
  show ?thesis
    unfolding r listingAt_def
    using assms(1) nd entry_list_trace[OF f(1) w f(2) n(2), of k hp]
      entry_data_state[of ?mem "[]" "decoded hp t" k hp] f(1)
    by (simp add: entry_sel entry_list_flags[OF f(1)] listingAt_def n(1) ev(5))
qed

lemma listingAt_zero:
  assumes "listingAt B b tr t" and "drop hp B = replicate 512 NUL @ rest"
  shows "readHeader k ft hp t = t\<lparr>outName := hp + 512, eofFlag := True\<rparr>"
  using assms by (simp add: readHeader_def listingAt_def TAR_BLOCK_SIZE_def Let_def)

text \<open>
  Claim C7, as amended.  When the loop of \<open>readTarFile\<close> meets, in its buffer, a header
  block with a name and with an invalid mode, uid, gid or size, it goes on with the next
  block: \<open>cp\<close> moves on by 512 bytes, the reader is still in the header state, neither
  \<open>eofFlag\<close> nor \<open>errorFlag\<close> has changed, and the warning is printed unless the flag
  \<open>badHeader\<close> was set.  The flag is set by this block and cleared by every header whose
  four fields decode, so the warning is printed once for each run of consecutive bad
  blocks, not once for the whole archive.
\<close>

theorem readTarFile_loop_bad_header:
  assumes "\<not> eofFlag s" and "inHeader s" and "0 < inCc"
    and "hd (drop cp (buf s)) \<noteq> NUL"
  shows "(headerFieldsBad (drop cp (buf s)) \<longrightarrow>
          (\<exists>s'. readTarFile_loop k fileTable blockSize tarIn cp inCc s
                  = readTarFile_loop k fileTable blockSize tarIn (cp + TAR_BLOCK_SIZE)
                      (inCc - int TAR_BLOCK_SIZE) s'
              \<and> s' = say (if badHeader s then [] else [badHeaderWarning])
                         (decoded cp s\<lparr>badHeader := True\<rparr>)
              \<and> inHeader s' \<and> \<not> eofFlag s' \<and> errorFlag s' = errorFlag s \<and> badHeader s'
              \<and> dataCc s' = dataCc s \<and> buf s' = buf s))
       \<and> (\<not> headerFieldsBad (drop cp (buf s)) \<longrightarrow> \<not> badHeader (readHeader k fileTable cp s))"
proof (intro conjI impI)
  assume bad: "headerFieldsBad (drop cp (buf s))"
  have "readHeader k fileTable cp s
      = say (if badHeader s then [] else [badHeaderWarning]) (decoded cp s\<lparr>badHeader := True\<rparr>)"
    using bad unfolding readHeader_named[OF assms(4)] by simp
  then show "\<exists>s'. readTarFile_loop k fileTable blockSize tarIn cp inCc s
                  = readTarFile_loop k fileTable blockSize tarIn (cp + TAR_BLOCK_SIZE)
                      (inCc - int TAR_BLOCK_SIZE) s'
              \<and> s' = say (if badHeader s then [] else [badHeaderWarning])
                         (decoded cp s\<lparr>badHeader := True\<rparr>)
              \<and> inHeader s' \<and> \<not> eofFlag s' \<and> errorFlag s' = errorFlag s \<and> badHeader s'
              \<and> dataCc s' = dataCc s \<and> buf s' = buf s"
    using readTarFile_loop_header[OF assms(1-3), of k fileTable blockSize tarIn cp] assms(1,2)
    by (simp add: say_def decoded_def)
next
  assume "\<not> headerFieldsBad (drop cp (buf s))"
  then show "\<not> badHeader (readHeader k fileTable cp s)"
    unfolding readHeader_named[OF assms(4)] by (simp add: entry_sel)
qed

theorem readTarFile_loop_bad_header_witness:
  "\<not> eofFlag (listingState (badBlock @ exampleHeader))
   \<and> inHeader (listingState (badBlock @ exampleHeader)) \<and> (0::int) < 1024
   \<and> hd (drop 0 (buf (listingState (badBlock @ exampleHeader)))) \<noteq> NUL
   \<and> headerFieldsBad (drop 0 (buf (listingState (badBlock @ exampleHeader))))
   \<and> readTarFile_loop (\<lambda>call. 0) [] 1024 \<lparr>content = [], goodReads = None\<rparr> 0 1024
         (listingState (badBlock @ exampleHeader))
       = readTarFile_loop (\<lambda>call. 0) [] 1024 \<lparr>content = [], goodReads = None\<rparr> 512 512
           (say [badHeaderWarning]
              (decoded 0 (listingState (badBlock @ exampleHeader))\<lparr>badHeader := True\<rparr>))"
proof -
  let ?s = "listingState (badBlock @ exampleHeader)"
  have 1: "\<not> eofFlag ?s" "inHeader ?s" "\<not> badHeader ?s"
    by (simp_all add: listingState_def initialState_def)
  have 2: "hd (drop 0 (buf ?s)) \<noteq> NUL"
    using badBlock_facts(2) by (simp add: listingState_def)
  have 3: "headerFieldsBad (drop 0 (buf ?s))"
    using badBlock_facts(3) by (simp add: listingState_def)
  show ?thesis
    using readTarFile_loop_bad_header[OF 1(1,2) _ 2, of 1024 "\<lambda>call. 0" "[]" 1024
        "\<lparr>content = [], goodReads = None\<rparr>"] 1 2 3
    by (simp add: TAR_BLOCK_SIZE_def)
qed

text \<open>
  Claim C7 as stated fails: listing an archive of a bad block, the header of
  \<open>hello.txt\<close>, another bad block and the end block prints the warning twice.
\<close>

theorem readTarFile_warns_twice_counterexample:
  "trace (readTarFile (\<lambda>call. 0) [] (replicate 8192 NUL) 3
            \<lparr>content = badBlock @ exampleHeader @ badBlock @ replicate 512 NUL, goodReads = None\<rparr>
            (initialState\<lparr>listFlag := True, tarName := Some ''a.tar''\<rparr>))
     = [badHeaderWarning, Stdout ''hello.txt'', Stdout [CHR 0x0A], badHeaderWarning, Sys (Close 3)]"
proof -
  let ?k = "\<lambda>call::syscall. 0::int"
  define archive where "archive = badBlock @ exampleHeader @ badBlock @ replicate 512 NUL"
  define B where "B = archive @ replicate 6144 NUL"
  define tarIn where "tarIn = \<lparr>content = archive, goodReads = None\<rparr>"
  define s where "s = initialState\<lparr>listFlag := True, tarName := Some ''a.tar'',
      skipFileFlag := False, badHeader := False, warnedRoot := False, eofFlag := False,
      inHeader := True, dataCc := 0, outFd := - 1, buf := replicate 8192 NUL, tarFd := 3\<rparr>"
  note len = badBlock_facts(1) exampleHeader_fields(9)
  have la: "length archive = 2048" by (simp add: archive_def len)
  have st: "store 0 (take 8192 (content tarIn)) (buf s) = B"
    by (simp add: store_def tarIn_def s_def B_def la)
  define s0 where "s0 = s\<lparr>buf := B\<rparr>"
  have l0: "listingAt B False [] s0"
    by (simp add: listingAt_def s0_def s_def initialState_def)
  define s1 where "s1 = readHeader ?k [] 0 s0"
  define s2 where "s2 = readHeader ?k [] 512 s1"
  define s3 where "s3 = readHeader ?k [] 1024 s2"
  define s4 where "s4 = readHeader ?k [] 1536 s3"
  have d0: "drop 0 B = badBlock @ (exampleHeader @ badBlock @ replicate 512 NUL @ replicate 6144 NUL)"
    by (simp add: B_def archive_def)
  have d1: "drop 512 B = exampleHeader @ (badBlock @ replicate 512 NUL @ replicate 6144 NUL)"
    by (simp add: B_def archive_def len)
  have d2: "drop 1024 B = badBlock @ (replicate 512 NUL @ replicate 6144 NUL)"
    by (simp add: B_def archive_def len)
  have d3: "drop 1536 B = replicate 512 NUL @ replicate 6144 NUL"
    by (simp add: B_def archive_def len)
  have l1: "listingAt B True [badHeaderWarning] s1"
    using listingAt_bad[OF l0, of 0 ?k "[]"] badBlock_facts(2,3) unfolding d0 s1_def by simp
  have l2: "listingAt B False [badHeaderWarning, Stdout ''hello.txt'', Stdout [CHR 0x0A]] s2"
    using listingAt_hello[OF l1 d1, of ?k] unfolding s2_def by simp
  have l3: "listingAt B True [badHeaderWarning, Stdout ''hello.txt'', Stdout [CHR 0x0A], badHeaderWarning] s3"
    using listingAt_bad[OF l2, of 1024 ?k "[]"] badBlock_facts(2,3) unfolding d2 s3_def by simp
  have e4: "s4 = s3\<lparr>outName := 1536 + 512, eofFlag := True\<rparr>"
    unfolding s4_def by (rule listingAt_zero[OF l3 d3])
  have f0: "\<not> eofFlag s" "inHeader s" by (simp_all add: s_def)
  have ne: "content tarIn \<noteq> []" "goodReads tarIn = None" "length (content tarIn) = 2048"
    using la by (auto simp: tarIn_def)
  have r0: "readTarFile_loop ?k [] 8192 tarIn 0 0 s
      = readTarFile_loop ?k [] 8192 (tarIn\<lparr>content := drop 8192 (content tarIn), goodReads := None\<rparr>)
          512 1536 s1"
    using readTarFile_loop_read[OF f0 _ ne(2,1), of 0 8192 ?k "[]" 0] ne(3) st
    by (simp add: s0_def[symmetric] s1_def TAR_BLOCK_SIZE_def)
  have r1: "readTarFile_loop ?k [] 8192 t 512 1536 s1 = readTarFile_loop ?k [] 8192 t 1024 1024 s2" for t
    using readTarFile_loop_header[of s1 1536 ?k "[]" 8192 t 512] l1
    by (simp add: listingAt_def s2_def TAR_BLOCK_SIZE_def)
  have r2: "readTarFile_loop ?k [] 8192 t 1024 1024 s2 = readTarFile_loop ?k [] 8192 t 1536 512 s3" for t
    using readTarFile_loop_header[of s2 1024 ?k "[]" 8192 t 1024] l2
    by (simp add: listingAt_def s3_def TAR_BLOCK_SIZE_def)
  have r3: "readTarFile_loop ?k [] 8192 t 1536 512 s3 = readTarFile_loop ?k [] 8192 t 2048 0 s4" for t
    using readTarFile_loop_header[of s3 512 ?k "[]" 8192 t 1536] l3
    by (simp add: listingAt_def s4_def TAR_BLOCK_SIZE_def)
  have r4: "readTarFile_loop ?k [] 8192 t 2048 0 s4 = s4" for t
    by (rule readTarFile_loop_eof) (simp add: e4)
  have loop: "readTarFile_loop ?k [] 8192 tarIn 0 0 s = s4"
    unfolding r0 r1 r2 r3 r4 ..
  have fin: "tarFd s4 = 3" "\<not> tostdoutFlag s4" "outFd s4 = - 1"
      "trace s4 = [badHeaderWarning, Stdout ''hello.txt'', Stdout [CHR 0x0A], badHeaderWarning]"
    using l3 by (simp_all add: e4 listingAt_def)
  have "readTarFile ?k [] (replicate 8192 NUL) 3 tarIn (initialState\<lparr>listFlag := True, tarName := Some ''a.tar''\<rparr>)
      = say [Sys (Close 3)] s4"
    unfolding readTarFile_def Let_def
    using loop fin by (simp add: s_def)
  then show ?thesis
    using fin(4) by (simp add: say_def tarIn_def archive_def)
qed

lemma bytesOf_store_after:
  assumes "fst m + snd m \<le> off" and "off \<le> length mem"
  shows "bytesOf m (store off bs mem) = bytesOf m mem"
proof -
  have l: "fst m + snd m \<le> length (take off mem)" using assms by simp
  have "bytesOf m (store off bs mem) = bytesOf m (take off mem)"
    unfolding store_def by (rule bytesOf_append[OF l])
  moreover have "bytesOf m (take off mem @ drop off mem) = bytesOf m (take off mem)"
    by (rule bytesOf_append[OF l])
  ultimately show ?thesis by simp
qed

lemma bytesOf_putOctalMember_after:
  "fst m + snd m \<le> fst m' \<Longrightarrow> fst m' \<le> length mem
     \<Longrightarrow> bytesOf m (putOctalMember m' v mem) = bytesOf m mem"
  by (simp add: putOctalMember_def bytesOf_store_after split: option.splits)

lemma buildHeader_mode:
  assumes "length fileName \<le> TAR_NAME_SIZE"
  shows "getOctal (bytesOf h_mode (buildHeader fileName statbuf @ rest)) = st_mode statbuf AND 511"
proof -
  define v where "v = st_mode statbuf AND 511"
  define H where "H = store (fst h_version) (strncpy ''00'' (snd h_version))
      (store (fst h_magic) (strncpy ''ustar'' (snd h_magic))
        (store (fst h_name) (fileName @ [NUL]) (replicate sizeof_TarHeader NUL)))"
  have lH: "length H = 500"
    using assms
    by (simp add: H_def length_store h_name_def h_magic_def h_version_def strncpy_def
        sizeof_TarHeader_def TAR_NAME_SIZE_def)
  have v: "0 \<le> v" "v \<le> 511" by (simp_all add: v_def AND_upper2)
  obtain f where f: "putOctal 8 v = Some f" "length f = 8" "getOctal f = v"
    using putOctal_fits[of 8 v] v by auto
  have m: "bytesOf h_mode (putOctalMember h_mode v H) = f"
    using lH f(1,2) by (simp add: putOctalMember_def h_mode_def bytesOf_def store_def)
  have "bytesOf h_mode (buildHeader fileName statbuf) = bytesOf h_mode (putOctalMember h_mode v H)"
    unfolding buildHeader_def Let_def v_def[symmetric] H_def[symmetric]
    using lH
    by (simp add: bytesOf_store_after bytesOf_putOctalMember_after length_store
        length_putOctalMember h_mode_def h_uid_def h_gid_def h_size_def h_mtime_def
        h_typeFlag_def h_checkSum_def sizeof_TarHeader_def)
  moreover have "length (buildHeader fileName statbuf) = 500"
    unfolding buildHeader_def Let_def v_def[symmetric] H_def[symmetric]
    using lH
    by (simp add: length_store length_putOctalMember h_mode_def h_uid_def h_gid_def h_size_def
        h_mtime_def h_typeFlag_def h_checkSum_def sizeof_TarHeader_def)
  ultimately show ?thesis
    using m f(3) by (simp add: bytesOf_append h_mode_def v_def)
qed

lemma perm_bits: "(m AND 511) AND S_IFMT = 0" for m :: int
  by (simp add: S_IFMT_def and.assoc)

lemma readHeader_valid:
  assumes "hd (drop hp (buf s)) \<noteq> NUL" and "\<not> headerFieldsBad (drop hp (buf s))"
  shows "readHeader k ft hp s =
      readHeader_entry k ft hp (drop hp (buf s)) (getOctal (bytesOf h_size (drop hp (buf s))))
             (getOctal (bytesOf h_devMajor (drop hp (buf s))) mod 2 ^ 32)
             (getOctal (bytesOf h_devMinor (drop hp (buf s))) mod 2 ^ 32) (decoded hp s)"
  unfolding readHeader_named[OF assms(1)] using assms(2) by simp

lemma slashHeader_fields:
  "parseOctal (bytesOf h_mode slashHeader) = Some 33188"
  "parseOctal (bytesOf h_uid slashHeader) = Some 1000"
  "parseOctal (bytesOf h_gid slashHeader) = Some 1000"
  "parseOctal (bytesOf h_size slashHeader) = Some 0"
  "getOctal (bytesOf h_mode slashHeader) = 33188"
  "cstring slashHeader = ''d/''"
  "hd slashHeader = CHR ''d''"
  "hd (bytesOf h_typeFlag slashHeader) = CHR ''0''"
  by code_simp+

text \<open>
  Claim C8.  A name that ends with a slash is meant to make the entry a directory whatever
  else the header says, and \<open>readHeader\<close> ors \<open>S_IFDIR\<close> into the decoded mode for it.
  That does not make a directory of every such entry: the header named \<open>d/\<close> whose
  mode field is octal 100644 is accepted, and its decoded mode is octal 140644, which
  \<open>S_ISSOCK\<close> takes for a socket and \<open>S_ISDIR\<close> does not take for a directory.
\<close>

theorem readHeader_slash_not_directory:
  "last (cstring (drop 0 (buf (listingState slashHeader)))) = CHR ''/''
   \<and> \<not> badHeader (readHeader (\<lambda>call. 0) [] 0 (listingState slashHeader))
   \<and> mode (readHeader (\<lambda>call. 0) [] 0 (listingState slashHeader)) = 49572
   \<and> \<not> S_ISDIR (mode (readHeader (\<lambda>call. 0) [] 0 (listingState slashHeader)))
   \<and> S_ISSOCK (mode (readHeader (\<lambda>call. 0) [] 0 (listingState slashHeader)))"
proof -
  let ?s = "listingState slashHeader"
  have m: "drop 0 (buf ?s) = slashHeader" by (simp add: listingState_def)
  have h: "hd (drop 0 (buf ?s)) \<noteq> NUL"
    unfolding m using slashHeader_fields(7) by (simp add: NUL_def)
  have v: "\<not> headerFieldsBad (drop 0 (buf ?s))"
    unfolding m using slashHeader_fields(1-4) by (simp add: headerFieldsBad_def)
  have l: "last (cstring (drop 0 (buf ?s))) = CHR ''/''"
    unfolding m slashHeader_fields(6) by simp
  have md: "mode (readHeader (\<lambda>call. 0) [] 0 ?s) = 49572"
    unfolding readHeader_valid[OF h v] using l slashHeader_fields(5)
    by (simp add: entry_sel listingState_def S_IFDIR_def)
  have b: "\<not> badHeader (readHeader (\<lambda>call. 0) [] 0 ?s)"
    unfolding readHeader_valid[OF h v] by (simp add: entry_sel)
  show ?thesis
    using l b unfolding md
    by (simp add: S_ISDIR_def S_ISSOCK_def S_IFMT_def S_IFDIR_def S_IFSOCK_def)
qed

lemma exampleData_facts:
  "length exampleData = 512" "hd (exampleData @ rest) \<noteq> NUL"
  "headerFieldsBad (exampleData @ rest)"
proof -
  show l: "length exampleData = 512" by (simp add: exampleData_def)
  show "hd (exampleData @ rest) \<noteq> NUL" by (simp add: exampleData_def NUL_def)
  have "parseOctal (bytesOf h_mode exampleData) = None" by code_simp
  then show "headerFieldsBad (exampleData @ rest)"
    using l by (simp add: headerFieldsBad_append) (simp add: headerFieldsBad_def)
qed

text \<open>
  Claim C10.  Take a header that is not rejected, read while listing or for a name that is
  not wanted.  The reader sets \<open>dataCc\<close> to the size and leaves the header state (when the
  size is not zero) exactly when the entry is no hard or symbolic link and the decoded mode
  satisfies one of \<open>S_ISREG\<close>, \<open>S_ISCHR\<close>, \<open>S_ISBLK\<close>, \<open>S_ISSOCK\<close>, \<open>S_ISFIFO\<close>, which needs
  file type bits in the mode field itself.  When the mode field holds permission bits only,
  \<open>inHeader\<close> and \<open>dataCc\<close> are left as they were, whatever the size, and the loop of
  \<open>readTarFile\<close> hands the next block to \<open>readHeader\<close> as well.  The header that
  \<open>writeHeader\<close> builds is of that kind: its mode field decodes to \<open>st_mode AND 0777\<close>.
\<close>

theorem readHeader_data_state:
  assumes "hd (drop hp (buf s)) \<noteq> NUL" and "\<not> headerFieldsBad (drop hp (buf s))"
    and "\<not> wantFileName (entryName (drop hp (buf s))) fileTable \<or> \<not> extractFlag s"
  shows "inHeader (readHeader k fileTable hp s)
           = (if \<not> isHardLink (drop hp (buf s)) \<and> \<not> isSoftLink (drop hp (buf s))
                 \<and> carriesData (mode (readHeader k fileTable hp s))
              then getOctal (bytesOf h_size (drop hp (buf s))) = 0 else inHeader s)
       \<and> dataCc (readHeader k fileTable hp s)
           = (if \<not> isHardLink (drop hp (buf s)) \<and> \<not> isSoftLink (drop hp (buf s))
                 \<and> carriesData (mode (readHeader k fileTable hp s))
              then getOctal (bytesOf h_size (drop hp (buf s))) else dataCc s)
       \<and> (carriesData (mode (readHeader k fileTable hp s)) \<longrightarrow>
            getOctal (bytesOf h_mode (drop hp (buf s))) AND S_IFMT \<noteq> 0)
       \<and> (getOctal (bytesOf h_mode (drop hp (buf s))) AND S_IFMT = 0 \<longrightarrow>
            inHeader (readHeader k fileTable hp s) = inHeader s
            \<and> dataCc (readHeader k fileTable hp s) = dataCc s)
       \<and> (getOctal (bytesOf h_mode (drop hp (buf s))) AND S_IFMT = 0
            \<and> \<not> eofFlag s \<and> inHeader s \<and> int TAR_BLOCK_SIZE < inCc \<longrightarrow>
            readTarFile_loop k fileTable blockSize tarIn hp inCc s
              = readTarFile_loop k fileTable blockSize tarIn (hp + 2 * TAR_BLOCK_SIZE)
                  (inCc - 2 * int TAR_BLOCK_SIZE)
                  (readHeader k fileTable (hp + TAR_BLOCK_SIZE) (readHeader k fileTable hp s)))
       \<and> (length fileName \<le> TAR_NAME_SIZE
            \<and> drop hp (buf s) = buildHeader fileName statbuf @ rest \<longrightarrow>
            getOctal (bytesOf h_mode (drop hp (buf s))) = st_mode statbuf AND 511
            \<and> inHeader (readHeader k fileTable hp s) = inHeader s
            \<and> dataCc (readHeader k fileTable hp s) = dataCc s)"
proof -
  let ?mem = "drop hp (buf s)"
  let ?rh = "readHeader k fileTable hp s"
  let ?m = "getOctal (bytesOf h_mode ?mem)"
  note r = readHeader_valid[OF assms(1,2), of k fileTable]
  have m: "mode ?rh = (if last (cstring ?mem) = CHR ''/'' then ?m OR S_IFDIR else ?m)"
    unfolding r by (simp add: entry_sel)
  have a: "\<not> wantFileName (entryName ?mem) fileTable \<or> \<not> extractFlag (decoded hp s)"
    using assms(3) by simp
  note ds = entry_data_state[OF a, of k hp "getOctal (bytesOf h_size ?mem)"
      "getOctal (bytesOf h_devMajor ?mem) mod 2 ^ 32" "getOctal (bytesOf h_devMinor ?mem) mod 2 ^ 32",
      folded r, unfolded decoded_sel, folded m]
  have c: "carriesData (mode ?rh) \<longrightarrow> ?m AND S_IFMT \<noteq> 0"
    unfolding m using no_type_bits(1,2)[of ?m] by auto
  have stay: "inHeader ?rh = inHeader s \<and> dataCc ?rh = dataCc s" if "?m AND S_IFMT = 0"
    using that c ds by simp
  have two: "readTarFile_loop k fileTable blockSize tarIn hp inCc s
              = readTarFile_loop k fileTable blockSize tarIn (hp + 2 * TAR_BLOCK_SIZE)
                  (inCc - 2 * int TAR_BLOCK_SIZE)
                  (readHeader k fileTable (hp + TAR_BLOCK_SIZE) ?rh)"
    if z: "?m AND S_IFMT = 0" and e: "\<not> eofFlag s" and i: "inHeader s"
      and n: "int TAR_BLOCK_SIZE < inCc"
  proof -
    have p: "0 < inCc" using n by simp
    have e': "\<not> eofFlag ?rh" unfolding r using e by (simp add: entry_sel)
    have i': "inHeader ?rh" using stay[OF z] i by simp
    have p': "0 < inCc - int TAR_BLOCK_SIZE" using n by simp
    have q: "hp + TAR_BLOCK_SIZE + TAR_BLOCK_SIZE = hp + 2 * TAR_BLOCK_SIZE"
      "inCc - int TAR_BLOCK_SIZE - int TAR_BLOCK_SIZE = inCc - 2 * int TAR_BLOCK_SIZE"
      by simp_all
    show ?thesis
      unfolding readTarFile_loop_header[OF e i p] readTarFile_loop_header[OF e' i' p'] q ..
  qed
  have w: "?m = st_mode statbuf AND 511 \<and> inHeader ?rh = inHeader s \<and> dataCc ?rh = dataCc s"
    if l: "length fileName \<le> TAR_NAME_SIZE" and b: "?mem = buildHeader fileName statbuf @ rest"
  proof -
    have e: "?m = st_mode statbuf AND 511" unfolding b by (rule buildHeader_mode[OF l])
    then have "?m AND S_IFMT = 0" by (simp add: perm_bits)
    from stay[OF this] e show ?thesis by simp
  qed
  show ?thesis using ds c stay two w by blast
qed

theorem readHeader_data_state_witness:
  "hd (drop 0 (buf (listingState (exampleHeader @ exampleData @ replicate 512 NUL)))) \<noteq> NUL
   \<and> \<not> headerFieldsBad (drop 0 (buf (listingState (exampleHeader @ exampleData @ replicate 512 NUL))))
   \<and> drop 0 (buf (listingState (exampleHeader @ exampleData @ replicate 512 NUL)))
       = buildHeader ''hello.txt'' exampleStat @ replicate 12 NUL @ exampleData @ replicate 512 NUL
   \<and> getOctal (bytesOf h_size (exampleHeader @ exampleData @ replicate 512 NUL)) = 4
   \<and> inHeader (readHeader (\<lambda>call. 0) [] 0
         (listingState (exampleHeader @ exampleData @ replicate 512 NUL)))
   \<and> dataCc (readHeader (\<lambda>call. 0) [] 0
         (listingState (exampleHeader @ exampleData @ replicate 512 NUL))) = 0
   \<and> trace (readTarFile_loop (\<lambda>call. 0) [] 8192 \<lparr>content = [], goodReads = None\<rparr> 0 1536
         (listingState (exampleHeader @ exampleData @ replicate 512 NUL)\<lparr>tarFd := 3, tarName := Some ''a.tar''\<rparr>))
       = [Stdout ''hello.txt'', Stdout [CHR 0x0A], badHeaderWarning]"
proof -
  let ?k = "\<lambda>call::syscall. 0::int"
  define B where "B = exampleHeader @ exampleData @ replicate 512 NUL"
  define t where "t = \<lparr>content = [], goodReads = None\<rparr>"
  define s where "s = listingState B"
  define s0 where "s0 = s\<lparr>tarFd := 3, tarName := Some ''a.tar''\<rparr>"
  note ev = exampleHeader_valid[of "exampleData @ replicate 512 NUL"]
  note len = exampleHeader_fields(9) exampleData_facts(1)
  have b: "buf s = B" "buf s0 = B" by (simp_all add: s_def s0_def listingState_def)
  have d0: "drop 0 B = exampleHeader @ (exampleData @ replicate 512 NUL)" by (simp add: B_def)
  have d1: "drop 512 B = exampleData @ replicate 512 NUL" by (simp add: B_def len)
  have d2: "drop 1024 B = replicate 512 NUL @ []" by (simp add: B_def len)
  have h: "hd (drop 0 (buf s)) \<noteq> NUL" "hd (drop 0 (buf s0)) \<noteq> NUL"
    unfolding b d0 by (rule ev)+
  have v: "\<not> headerFieldsBad (drop 0 (buf s))" "\<not> headerFieldsBad (drop 0 (buf s0))"
    unfolding b d0 by (rule ev)+
  have f: "\<not> wantFileName (entryName (drop 0 (buf s))) [] \<or> \<not> extractFlag s"
    "\<not> wantFileName (entryName (drop 0 (buf s0))) [] \<or> \<not> extractFlag s0"
    "inHeader s" "dataCc s = 0" "\<not> eofFlag s0" "inHeader s0"
    by (simp_all add: s_def s0_def listingState_def initialState_def)
  have wr: "drop 0 (buf s) = buildHeader ''hello.txt'' exampleStat
       @ (replicate 12 NUL @ exampleData @ replicate 512 NUL)"
    "drop 0 (buf s0) = buildHeader ''hello.txt'' exampleStat
       @ (replicate 12 NUL @ exampleData @ replicate 512 NUL)"
    unfolding b d0 exampleHeader_written[symmetric] by simp_all
  have z: "getOctal (bytesOf h_size (exampleHeader @ exampleData @ replicate 512 NUL)) = 4"
  proof -
    have "bytesOf h_size (exampleHeader @ exampleData @ replicate 512 NUL) = bytesOf h_size exampleHeader"
      using len by (simp add: bytesOf_append h_size_def)
    moreover have "getOctal (bytesOf h_size exampleHeader) = 4" by code_simp
    ultimately show ?thesis by simp
  qed
  have m0: "getOctal (bytesOf h_mode (drop 0 (buf s0))) AND S_IFMT = 0"
    unfolding b d0 ev(4) by (simp add: S_IFMT_def)
  have l0: "listingAt B False [] s0"
    by (simp add: listingAt_def s0_def s_def listingState_def initialState_def)
  define s1 where "s1 = readHeader ?k [] 0 s0"
  define s2 where "s2 = readHeader ?k [] 512 s1"
  have l1: "listingAt B False [Stdout ''hello.txt'', Stdout [CHR 0x0A]] s1"
    using listingAt_hello[OF l0 d0, of ?k] unfolding s1_def by simp
  have l2: "listingAt B True [Stdout ''hello.txt'', Stdout [CHR 0x0A], badHeaderWarning] s2"
    using listingAt_bad[OF l1, of 512 ?k "[]"] exampleData_facts(2,3) unfolding d1 s2_def by simp
  have e3: "readHeader ?k [] 1024 s2 = s2\<lparr>outName := 1024 + 512, eofFlag := True\<rparr>"
    by (rule listingAt_zero[OF l2 d2])
  have r2: "readTarFile_loop ?k [] 8192 t 1024 512 s2 = readTarFile_loop ?k [] 8192 t 1536 0 (readHeader ?k [] 1024 s2)"
    using readTarFile_loop_header[of s2 512 ?k "[]" 8192 t 1024] l2
    by (simp add: listingAt_def TAR_BLOCK_SIZE_def)
  have r3: "readTarFile_loop ?k [] 8192 t 1536 0 (s2\<lparr>outName := 1024 + 512, eofFlag := True\<rparr>)
      = s2\<lparr>outName := 1024 + 512, eofFlag := True\<rparr>"
    by (rule readTarFile_loop_eof) simp
  have tr: "trace (readTarFile_loop ?k [] 8192 t 1024 512 s2)
      = [Stdout ''hello.txt'', Stdout [CHR 0x0A], badHeaderWarning]"
    unfolding r2 e3 r3 using l2 by (simp add: listingAt_def)
  have pa: "length ''hello.txt'' \<le> TAR_NAME_SIZE
      \<and> drop 0 (buf s) = buildHeader ''hello.txt'' exampleStat
            @ (replicate 12 NUL @ exampleData @ replicate 512 NUL)"
    using wr(1) by (simp add: TAR_NAME_SIZE_def)
  have A: "inHeader (readHeader ?k [] 0 s) \<and> dataCc (readHeader ?k [] 0 s) = 0"
    using readHeader_data_state[OF h(1) v(1) f(1), where k = ?k and fileName = "''hello.txt''"
        and statbuf = exampleStat and rest = "replicate 12 NUL @ exampleData @ replicate 512 NUL",
        THEN conjunct2, THEN conjunct2, THEN conjunct2, THEN conjunct2, THEN conjunct2,
        THEN mp, OF pa] f(3,4)
    by simp
  have pl: "getOctal (bytesOf h_mode (drop 0 (buf s0))) AND S_IFMT = 0
      \<and> \<not> eofFlag s0 \<and> inHeader s0 \<and> int TAR_BLOCK_SIZE < 1536"
    using m0 f(5,6) by (simp add: TAR_BLOCK_SIZE_def)
  have L: "readTarFile_loop ?k [] 8192 t 0 1536 s0 = readTarFile_loop ?k [] 8192 t 1024 512 s2"
    using readHeader_data_state[OF h(2) v(2) f(2), where k = ?k and inCc = 1536
        and blockSize = 8192 and tarIn = t,
        THEN conjunct2, THEN conjunct2, THEN conjunct2, THEN conjunct2, THEN conjunct1,
        THEN mp, OF pl]
    by (simp add: TAR_BLOCK_SIZE_def s1_def s2_def)
  have TR: "trace (readTarFile_loop ?k [] 8192 t 0 1536 s0)
      = [Stdout ''hello.txt'', Stdout [CHR 0x0A], badHeaderWarning]"
    unfolding L by (rule tr)
  note W = conjI[OF h(1) conjI[OF v(1) conjI[OF wr(1) conjI[OF z conjI[OF A[THEN conjunct1]
      conjI[OF A[THEN conjunct2] TR]]]]]]
  show ?thesis
    using W unfolding s0_def s_def B_def t_def .
qed

end
